theory Spec2Isabelle
  imports Main "HOL-Library.Word" "HOL-Library.AList"
begin

section \<open>gorapid: the token and the client of rapid.go\<close>

subsection \<open>Time\<close>

text \<open>
  A \<^verbatim>\<open>time.Time\<close> is read as a count of nanoseconds on the clock that
  \<^verbatim>\<open>time.Now()\<close> reads. A \<^verbatim>\<open>time.Duration\<close> is an \<^verbatim>\<open>int64\<close> count of
  nanoseconds, and Go's \<^verbatim>\<open>int\<close> is taken at its width on the 64-bit platforms, so
  both are \<open>64 word\<close> read with \<open>sint\<close>; their multiplication wraps as Go's does.
\<close>

type_synonym time = int
type_synonym go_int = "64 word"
type_synonym Duration = "64 word"

definition Second :: Duration where
  "Second = 1000000000"

text \<open>\<^verbatim>\<open>t.Add(d)\<close>\<close>

definition Add :: "time \<Rightarrow> Duration \<Rightarrow> time" where
  "Add t d = t + sint d"

text \<open>\<^verbatim>\<open>t.Before(u)\<close>\<close>

definition Before :: "time \<Rightarrow> time \<Rightarrow> bool" where
  "Before t u = (t < u)"

subsection \<open>Token\<close>

record Token =
  Value :: string
  ExpiresIn :: go_int
  TokenType :: string
  RefreshToken :: string
  ExpireTime :: time

text \<open>
  \<^verbatim>\<open>NewToken(value, expiresIn, tokenType, refreshToken)\<close>; the last argument is the
  reading of \<^verbatim>\<open>time.Now()\<close> inside the constructor.
\<close>

definition NewToken :: "string \<Rightarrow> go_int \<Rightarrow> string \<Rightarrow> string \<Rightarrow> time \<Rightarrow> Token" where
  "NewToken value expiresIn tokenType refreshToken now =
     \<lparr> Value = value,
       ExpiresIn = expiresIn,
       TokenType = tokenType,
       RefreshToken = refreshToken,
       ExpireTime = Add now (expiresIn * Second) \<rparr>"

text \<open>\<^verbatim>\<open>fmt.Sprintf("%s %s", t.TokenType, t.Value)\<close>\<close>

definition GetAuthorizationHeader :: "Token \<Rightarrow> string" where
  "GetAuthorizationHeader t = TokenType t @ '' '' @ Value t"

text \<open>\<^verbatim>\<open>IsValid\<close>; the second argument is the reading of \<^verbatim>\<open>time.Now()\<close>.\<close>

definition IsValid :: "Token \<Rightarrow> time \<Rightarrow> bool" where
  "IsValid t now = Before now (ExpireTime t)"

subsection \<open>Errors\<close>

text \<open>
  The three sentinel errors of the package, and the wrappers that \<^verbatim>\<open>Request\<close> puts
  around a failure. A \<open>string\<close> argument is the text of the underlying library error,
  the \<open>int\<close> of \<open>ErrUnexpectedStatus\<close> is the status code formatted into it.
  \<open>NilPointerDereference\<close> stands for the run-time panic of reading through a nil
  \<^verbatim>\<open>*Token\<close>.
\<close>

datatype error =
    ErrInvalidConfig
  | ErrTokenGeneration string
  | ErrUnexpectedStatus int
  | ErrEnsuringValidToken error
  | ErrParsingBaseURL string
  | ErrMarshalingRequestBody string
  | ErrCreatingRequest string
  | ErrSendingRequest string
  | NilPointerDereference

subsection \<open>Constants\<close>

definition contentTypeJSON :: string where
  "contentTypeJSON = ''application/json''"

definition contentTypeURLEncoded :: string where
  "contentTypeURLEncoded = ''application/x-www-form-urlencoded''"

definition authorizationHeader :: string where
  "authorizationHeader = ''Authorization''"

definition xAuthorizationHeader :: string where
  "xAuthorizationHeader = ''X-Authorization''"

definition acceptHeader :: string where
  "acceptHeader = ''Accept''"

definition defaultTimeout :: Duration where
  "defaultTimeout = 600 * Second"

definition tokenEndpoint :: string where
  "tokenEndpoint = ''/token''"

definition clientCredentialsGrant :: string where
  "clientCredentialsGrant = ''client_credentials''"

definition jwtBearerGrant :: string where
  "jwtBearerGrant = ''urn:ietf:params:oauth:grant-type:jwt-bearer''"

subsection \<open>The library types the client handles\<close>

text \<open>
  \<^verbatim>\<open>url.Values\<close> and \<^verbatim>\<open>http.Header\<close> are maps from a key to a list of values,
  kept here as association lists with distinct keys. \<^verbatim>\<open>Header.Set\<close> replaces the
  values of a key by one value; the keys this package sets are already in canonical form.
\<close>

type_synonym Values = "(string \<times> string list) list"
type_synonym Header = "(string \<times> string list) list"

definition Header_Set :: "string \<Rightarrow> string \<Rightarrow> Header \<Rightarrow> Header" where
  "Header_Set key v h = AList.update key [v] h"

text \<open>\<^verbatim>\<open>url.URL\<close>; \<open>User\<close> holds the user information as \<^verbatim>\<open>String()\<close> prints it.\<close>

record URL =
  Scheme :: string
  Opaque :: string
  User :: "string option"
  Host :: string
  Path :: string
  RawPath :: string
  OmitHost :: bool
  ForceQuery :: bool
  RawQuery :: string
  Fragment :: string
  RawFragment :: string

text \<open>
  \<^verbatim>\<open>http.Request\<close> as far as this package fills it: the method, the URL, the header,
  and the bytes of the body (\<open>None\<close> for a nil body).
\<close>

record http_Request =
  req_Method :: string
  req_URL :: URL
  req_Header :: Header
  req_Body :: "string option"

text \<open>\<^verbatim>\<open>http.Response\<close>: the body stream is the string of its bytes.\<close>

record http_Response =
  resp_StatusCode :: int
  resp_Header :: Header
  resp_Body :: string

text \<open>What \<^verbatim>\<open>HTTPClient.Do\<close> returns: an error, or a response.\<close>

datatype transport_result = Failed string | Reply http_Response

text \<open>The \<^verbatim>\<open>err\<close> of the pair \<^verbatim>\<open>resp, err\<close>, \<open>None\<close> for nil.\<close>

definition err_of :: "transport_result \<Rightarrow> string option" where
  "err_of result = (case result of Failed err \<Rightarrow> Some err | Reply resp \<Rightarrow> None)"

record http_Client =
  Timeout :: Duration

subsection \<open>The environment\<close>

text \<open>
  The library functions and the network that the package calls but does not define are
  parameters of the model:
  \<^item> \<open>url_Parse\<close>: \<^verbatim>\<open>url.Parse\<close>, an error text or the parsed URL;
  \<^item> \<open>strconv_Quote\<close>: \<^verbatim>\<open>strconv.Quote\<close>, the text that the verb \<^verbatim>\<open>%q\<close>
    prints for a string;
  \<^item> \<open>Values_Encode\<close>: \<^verbatim>\<open>url.Values.Encode\<close>;
  \<^item> \<open>base64_EncodeToString\<close>: \<^verbatim>\<open>base64.StdEncoding.EncodeToString\<close>;
  \<^item> \<open>json_Decode\<close>: \<^verbatim>\<open>json.NewDecoder(body).Decode(&token)\<close> on a zero
    \<^verbatim>\<open>Token\<close>, an error text or the token decoded from the bytes;
  \<^item> \<open>transport\<close>: what the network answers to a request, given the requests sent
    before it: the nanoseconds the exchange takes and its result.
\<close>

record env =
  url_Parse :: "string \<Rightarrow> string + URL"
  strconv_Quote :: "string \<Rightarrow> string"
  Values_Encode :: "Values \<Rightarrow> string"
  base64_EncodeToString :: "string \<Rightarrow> string"
  json_Decode :: "string \<Rightarrow> string + Token"
  transport :: "http_Request list \<Rightarrow> http_Request \<Rightarrow> nat \<times> transport_result"

text \<open>
  The state outside the client: the reading of the clock, and the requests handed to the
  transport so far, the oldest first.
\<close>

record world =
  clock :: time
  sent :: "http_Request list"

text \<open>
  \<^verbatim>\<open>c.HTTPClient.Do(req)\<close>: the request goes out, the clock moves on by the time the
  exchange takes.
\<close>

definition Do :: "env \<Rightarrow> http_Request \<Rightarrow> world \<Rightarrow> transport_result \<times> world" where
  "Do E req w =
     (case transport E (sent w) req of
        (taken, result) \<Rightarrow>
          (result, w\<lparr>clock := clock w + int taken, sent := sent w @ [req]\<rparr>))"

text \<open>
  \<^verbatim>\<open>time.Since(start)\<close> with the clock reading \<open>now\<close>: the difference, kept within
  the range of a \<^verbatim>\<open>Duration\<close>.
\<close>

definition Since :: "time \<Rightarrow> time \<Rightarrow> Duration" where
  "Since start now = of_int (max (- (2 ^ 63)) (min (2 ^ 63 - 1) (now - start)))"

text \<open>
  \<^verbatim>\<open>strings.LastIndex\<close> for a separator of one byte: the index of its last
  occurrence, or \<open>-1\<close>.
\<close>

definition strings_LastIndex :: "string \<Rightarrow> char \<Rightarrow> int" where
  "strings_LastIndex s c =
     (if c \<in> set s then int (length s) - 1 - int (length (takeWhile (\<lambda>x. x \<noteq> c) (rev s)))
      else - 1)"

definition strings_TrimSuffix :: "string \<Rightarrow> string \<Rightarrow> string" where
  "strings_TrimSuffix s suffix =
     (if length suffix \<le> length s \<and> drop (length s - length suffix) s = suffix
      then take (length s - length suffix) s else s)"

text \<open>\<^verbatim>\<open>hasPort\<close> and \<^verbatim>\<open>removeEmptyPort\<close> of \<^verbatim>\<open>net/http\<close>.\<close>

definition hasPort :: "string \<Rightarrow> bool" where
  "hasPort s = (strings_LastIndex s CHR '':'' > strings_LastIndex s CHR '']'')"

definition removeEmptyPort :: "string \<Rightarrow> string" where
  "removeEmptyPort host = (if hasPort host then strings_TrimSuffix host '':'' else host)"

text \<open>
  \<^verbatim>\<open>http.NewRequest\<close>: an empty method is GET; the method must be a token of
  RFC 7230 and the URL must parse. The URL of the request is the parsed URL, its host
  without an empty port.
\<close>

definition isTokenChar :: "char \<Rightarrow> bool" where
  "isTokenChar c =
     (let n = (of_char c :: nat) in
        (of_char CHR ''a'' \<le> n \<and> n \<le> of_char CHR ''z'') \<or>
        (of_char CHR ''A'' \<le> n \<and> n \<le> of_char CHR ''Z'') \<or>
        (of_char CHR ''0'' \<le> n \<and> n \<le> of_char CHR ''9'') \<or>
        c \<in> set ''!#$%&*+-.^_`|~'' \<or> c = CHR 0x27)"

definition validMethod :: "string \<Rightarrow> bool" where
  "validMethod method = (length method > 0 \<and> list_all isTokenChar method)"

definition http_NewRequest :: "env \<Rightarrow> string \<Rightarrow> string \<Rightarrow> string option \<Rightarrow> string + http_Request" where
  "http_NewRequest E method url body =
     (let m = (if method = [] then ''GET'' else method) in
      if \<not> validMethod m then Inl (''net/http: invalid method '' @ strconv_Quote E m)
      else (case url_Parse E url of
              Inl err \<Rightarrow> Inl err
            | Inr u \<Rightarrow>
                Inr \<lparr> req_Method = m, req_URL = u\<lparr> Host := removeEmptyPort (Host u) \<rparr>,
                      req_Header = [], req_Body = body \<rparr>))"

subsection \<open>Joining paths: \<^verbatim>\<open>filepath.Join\<close>\<close>

text \<open>
  \<^verbatim>\<open>Request\<close> joins the path of the base URL and the path of the request with
  \<^verbatim>\<open>filepath.Join\<close>, here with the separator \<^verbatim>\<open>/\<close> and no volume names, as on
  Unix. \<open>Join\<close> drops the leading empty elements, puts a separator between the
  others and cleans the result; \<open>Clean\<close> reads the path byte by byte and writes
  to a buffer \<open>out\<close>, where \<open>dotdot\<close> is the length of the part of the buffer
  that a \<^verbatim>\<open>..\<close> element must not remove.
\<close>

definition sep :: char where
  "sep = CHR ''/''"

definition dot :: char where
  "dot = CHR ''.''"

text \<open>
  The inner loop of the \<^verbatim>\<open>..\<close> case: \<^verbatim>\<open>for out.w > dotdot && out.index(out.w) != '/'\<close>
  steps \<open>w\<close> down.
\<close>

function backtrack :: "string \<Rightarrow> nat \<Rightarrow> nat \<Rightarrow> nat" where
  "backtrack out dotdot w =
     (if w > dotdot \<and> out ! w \<noteq> sep then backtrack out dotdot (w - 1) else w)"
  by pat_completeness auto
termination
  by (relation "measure (\<lambda>(out, dotdot, w). w)") auto

text \<open>One \<^verbatim>\<open>..\<close> element, on the buffer and \<open>dotdot\<close>.\<close>

definition dotdot_elem :: "bool \<Rightarrow> string \<times> nat \<Rightarrow> string \<times> nat" where
  "dotdot_elem rooted st =
     (case st of (out, dotdot) \<Rightarrow>
        if length out > dotdot then (take (backtrack out dotdot (length out - 1)) out, dotdot)
        else if \<not> rooted then
          (let out' = (if length out > 0 then out @ [sep] else out) @ [dot, dot]
           in (out', length out'))
        else (out, dotdot))"

text \<open>A real path element \<open>e\<close>, with the separator before it where one is needed.\<close>

definition real_elem :: "bool \<Rightarrow> string \<Rightarrow> string \<times> nat \<Rightarrow> string \<times> nat" where
  "real_elem rooted e st =
     (case st of (out, dotdot) \<Rightarrow>
        ((if (rooted \<and> length out \<noteq> 1) \<or> (\<not> rooted \<and> length out \<noteq> 0) then out @ [sep] else out) @ e,
         dotdot))"

text \<open>The loop over the rest of the path, \<^verbatim>\<open>for r < n\<close>.\<close>

function clean_loop :: "bool \<Rightarrow> string \<Rightarrow> string \<times> nat \<Rightarrow> string \<times> nat" where
  "clean_loop rooted [] st = st"
| "clean_loop rooted (c # cs) st =
     (if c = sep then clean_loop rooted cs st
      else if c = dot \<and> (cs = [] \<or> hd cs = sep) then clean_loop rooted cs st
      else if c = dot \<and> hd cs = dot \<and> (tl cs = [] \<or> hd (tl cs) = sep) then
        clean_loop rooted (tl cs) (dotdot_elem rooted st)
      else
        clean_loop rooted (dropWhile (\<lambda>x. x \<noteq> sep) cs)
          (real_elem rooted (c # takeWhile (\<lambda>x. x \<noteq> sep) cs) st))"
  by pat_completeness auto
termination
  by (relation "measure (\<lambda>(rooted, path, st). length path)")
     (auto simp: le_imp_less_Suc length_dropWhile_le)

definition Clean :: "string \<Rightarrow> string" where
  "Clean path =
     (if path = [] then [dot]
      else
        let rooted = (hd path = sep);
            st = clean_loop rooted (if rooted then tl path else path)
                   (if rooted then ([sep], 1) else ([], 0))
        in if fst st = [] then [dot] else fst st)"

text \<open>
  Whether a string has two separators in a row; the properties of the token URL and of
  the joined path are stated with it.
\<close>

fun doubled_sep :: "string \<Rightarrow> bool" where
  "doubled_sep [] = False"
| "doubled_sep [a] = False"
| "doubled_sep (a # b # r) = ((a = sep \<and> b = sep) \<or> doubled_sep (b # r))"

text \<open>
  What holds of the buffer and of \<open>dotdot\<close> throughout the loop of \<open>Clean\<close>: the
  buffer has no two separators in a row and ends in one only as the root; a rooted
  buffer begins with the root, where \<open>dotdot\<close> stays; an unrooted buffer does not begin
  with a separator, and \<open>dotdot\<close> is zero or the length of the \<^verbatim>\<open>..\<close> elements it
  begins with.
\<close>

definition clean_inv :: "bool \<Rightarrow> string \<times> nat \<Rightarrow> bool" where
  "clean_inv rooted st =
     (case st of (out, d) \<Rightarrow>
        \<not> doubled_sep out \<and> d \<le> length out
        \<and> (out \<noteq> [] \<and> last out = sep \<longrightarrow> rooted \<and> out = [sep])
        \<and> (rooted \<longrightarrow> d = 1 \<and> take 1 out = [sep])
        \<and> (\<not> rooted \<longrightarrow>
              (out \<noteq> [] \<longrightarrow> hd out \<noteq> sep)
            \<and> (d > 0 \<longrightarrow> 2 \<le> d \<and> take 2 out = [dot, dot]
                        \<and> (length out > 2 \<longrightarrow> out ! 2 = sep) \<and> out ! (d - 1) \<noteq> sep)))"

text \<open>\<^verbatim>\<open>strings.Join(elems, sep)\<close>\<close>

fun strings_Join :: "string list \<Rightarrow> string \<Rightarrow> string" where
  "strings_Join [] s = []"
| "strings_Join [e] s = e"
| "strings_Join (e # es) s = e @ s @ strings_Join es s"

fun filepath_Join :: "string list \<Rightarrow> string" where
  "filepath_Join [] = []"
| "filepath_Join (e # es) =
     (if e \<noteq> [] then Clean (strings_Join (e # es) [sep]) else filepath_Join es)"

subsection \<open>Printing a URL: \<^verbatim>\<open>URL.String\<close>\<close>

datatype encoding =
    encodePath
  | encodePathSegment
  | encodeHost
  | encodeZone
  | encodeUserPassword
  | encodeQueryComponent
  | encodeFragment

definition isAlnum :: "char \<Rightarrow> bool" where
  "isAlnum c =
     (let n = (of_char c :: nat) in
        (of_char CHR ''a'' \<le> n \<and> n \<le> of_char CHR ''z'') \<or>
        (of_char CHR ''A'' \<le> n \<and> n \<le> of_char CHR ''Z'') \<or>
        (of_char CHR ''0'' \<le> n \<and> n \<le> of_char CHR ''9''))"

definition shouldEscape :: "char \<Rightarrow> encoding \<Rightarrow> bool" where
  "shouldEscape c mode =
     (if isAlnum c then False
      else if (mode = encodeHost \<or> mode = encodeZone) \<and> (c \<in> set ''!$&()*+,;=:[]<>'' \<or> c = CHR 0x27 \<or> c = CHR 0x22)
        then False
      else if c \<in> set ''-_.~'' then False
      else if c \<in> set ''$&+,/:;=?@'' then
        (case mode of
           encodePath \<Rightarrow> c = CHR ''?''
         | encodePathSegment \<Rightarrow> c \<in> set ''/;,?''
         | encodeUserPassword \<Rightarrow> c \<in> set ''@/?:''
         | encodeQueryComponent \<Rightarrow> True
         | encodeFragment \<Rightarrow> False
         | _ \<Rightarrow> True)
      else if mode = encodeFragment \<and> c \<in> set ''!()*'' then False
      else True)"

definition upperhex :: "nat \<Rightarrow> char" where
  "upperhex n = ''0123456789ABCDEF'' ! n"

definition escape_char :: "encoding \<Rightarrow> char \<Rightarrow> string" where
  "escape_char mode c =
     (if c = CHR '' '' \<and> mode = encodeQueryComponent then ''+''
      else if shouldEscape c mode then
        [CHR ''%'', upperhex (of_char c div 16), upperhex (of_char c mod 16)]
      else [c])"

definition escape :: "string \<Rightarrow> encoding \<Rightarrow> string" where
  "escape s mode = concat (map (escape_char mode) s)"

definition ishex :: "char \<Rightarrow> bool" where
  "ishex c =
     (let n = (of_char c :: nat) in
        (of_char CHR ''0'' \<le> n \<and> n \<le> of_char CHR ''9'') \<or>
        (of_char CHR ''a'' \<le> n \<and> n \<le> of_char CHR ''f'') \<or>
        (of_char CHR ''A'' \<le> n \<and> n \<le> of_char CHR ''F''))"

definition unhex :: "char \<Rightarrow> nat" where
  "unhex c =
     (let n = (of_char c :: nat) in
        if of_char CHR ''0'' \<le> n \<and> n \<le> of_char CHR ''9'' then n - of_char CHR ''0''
        else if of_char CHR ''a'' \<le> n \<and> n \<le> of_char CHR ''f'' then n - of_char CHR ''a'' + 10
        else if of_char CHR ''A'' \<le> n \<and> n \<le> of_char CHR ''F'' then n - of_char CHR ''A'' + 10
        else 0)"

text \<open>
  \<^verbatim>\<open>unescape\<close> in the two modes \<open>String\<close> uses it in, \<open>encodePath\<close> and
  \<open>encodeFragment\<close>: a \<^verbatim>\<open>%\<close> must be followed by two hexadecimal digits and
  stands for the byte they write; \<open>None\<close> is the error.
\<close>

fun unescape :: "string \<Rightarrow> string option" where
  "unescape [] = Some []"
| "unescape (c # cs) =
     (if c = CHR ''%'' then
        (case cs of
           h1 # h2 # rest \<Rightarrow>
             if ishex h1 \<and> ishex h2 then
               map_option ((#) (char_of (unhex h1 * 16 + unhex h2))) (unescape rest)
             else None
         | _ \<Rightarrow> None)
      else map_option ((#) c) (unescape cs))"

definition validEncoded :: "string \<Rightarrow> encoding \<Rightarrow> bool" where
  "validEncoded s mode =
     list_all (\<lambda>c. c \<in> set ''!$&()*+,;=:@[]%'' \<or> c = CHR 0x27 \<or> \<not> shouldEscape c mode) s"

text \<open>
  \<^verbatim>\<open>setPath\<close>, by which \<^verbatim>\<open>url.Parse\<close> fills \<open>Path\<close> and \<open>RawPath\<close> from
  the path as it is written: the raw path is kept only when it is not the default
  encoding of the path; \<open>None\<close> is the error of an invalid escape.
\<close>

definition setPath :: "URL \<Rightarrow> string \<Rightarrow> URL option" where
  "setPath u p =
     (case unescape p of
        None \<Rightarrow> None
      | Some path \<Rightarrow>
          Some (u\<lparr> Path := path,
                   RawPath := (if p = escape path encodePath then [] else p) \<rparr>))"

definition EscapedPath :: "URL \<Rightarrow> string" where
  "EscapedPath u =
     (if RawPath u \<noteq> [] \<and> validEncoded (RawPath u) encodePath
         \<and> unescape (RawPath u) = Some (Path u) then RawPath u
      else if Path u = ''*'' then ''*''
      else escape (Path u) encodePath)"

definition EscapedFragment :: "URL \<Rightarrow> string" where
  "EscapedFragment u =
     (if RawFragment u \<noteq> [] \<and> validEncoded (RawFragment u) encodeFragment
         \<and> unescape (RawFragment u) = Some (Fragment u) then RawFragment u
      else escape (Fragment u) encodeFragment)"

text \<open>
  \<^verbatim>\<open>URL.String\<close>, in the order it writes: scheme, opaque part or authority and path,
  query, fragment.
\<close>

definition authority :: "URL \<Rightarrow> string" where
  "authority u =
     (if Scheme u \<noteq> [] \<or> Host u \<noteq> [] \<or> User u \<noteq> None then
        (if OmitHost u \<and> Host u = [] \<and> User u = None then []
         else
           (if Host u \<noteq> [] \<or> Path u \<noteq> [] \<or> User u \<noteq> None then ''//'' else [])
           @ (case User u of Some ui \<Rightarrow> ui @ ''@'' | None \<Rightarrow> [])
           @ (if Host u \<noteq> [] then escape (Host u) encodeHost else []))
      else [])"

definition URL_String :: "URL \<Rightarrow> string" where
  "URL_String u =
     (let buf0 = (if Scheme u \<noteq> [] then Scheme u @ '':'' else []);
          buf1 =
            (if Opaque u \<noteq> [] then buf0 @ Opaque u
             else
               let buf2 = buf0 @ authority u;
                   path = EscapedPath u;
                   buf3 = (if path \<noteq> [] \<and> hd path \<noteq> sep \<and> Host u \<noteq> [] then buf2 @ [sep] else buf2);
                   buf4 = (if buf3 = [] \<and> CHR '':'' \<in> set (takeWhile (\<lambda>c. c \<noteq> sep) path)
                           then ''./'' else buf3)
               in buf4 @ path);
          buf5 = (if ForceQuery u \<or> RawQuery u \<noteq> [] then buf1 @ ''?'' @ RawQuery u else buf1)
      in if Fragment u \<noteq> [] then buf5 @ ''#'' @ EscapedFragment u else buf5)"

subsection \<open>The client\<close>

record RapidClient =
  BaseURL :: string
  Key :: string
  Secret :: string
  UserWebToken :: string
  HTTPClient :: http_Client
  Token :: "Token option"
  XAuthorization :: string

text \<open>
  The \<^verbatim>\<open>Response\<close> of the package. \<open>Error\<close> is its embedded error field,
  \<open>None\<close> for nil.
\<close>

record Response =
  Body :: string
  Status :: int
  Headers :: Header
  Error :: "string option"
  ResponseTime :: Duration
  RequestURL :: string

text \<open>\<^verbatim>\<open>strings.TrimRight(s, cutset)\<close> for a cutset of ASCII characters.\<close>

definition strings_TrimRight :: "string \<Rightarrow> string \<Rightarrow> string" where
  "strings_TrimRight s cutset = rev (dropWhile (\<lambda>c. c \<in> set cutset) (rev s))"

text \<open>
  \<^verbatim>\<open>os.Getenv\<close> on the environment of the process, a list of variables and values:
  the empty string for a variable that is not set.
\<close>

definition os_Getenv :: "(string \<times> string) list \<Rightarrow> string \<Rightarrow> string" where
  "os_Getenv environ key = (case map_of environ key of None \<Rightarrow> [] | Some v \<Rightarrow> v)"

text \<open>
  \<^verbatim>\<open>NewRapidClient\<close>, in the environment \<open>environ\<close>. The function returns a pair as
  the Go function does, \<open>None\<close> for nil, and the world it leaves behind.
\<close>

definition NewRapidClient ::
  "(string \<times> string) list \<Rightarrow> world \<Rightarrow> (RapidClient option \<times> error option) \<times> world" where
  "NewRapidClient environ w =
     (let baseURL = os_Getenv environ ''RAPID_BASE_URL'';
          key = os_Getenv environ ''RAPID_KEY'';
          secret = os_Getenv environ ''RAPID_SECRET'';
          userWebToken = os_Getenv environ ''RAPID_USER_WEB_TOKEN''
      in if baseURL = [] \<or> key = [] \<or> secret = [] then ((None, Some ErrInvalidConfig), w)
         else ((Some \<lparr> BaseURL = strings_TrimRight baseURL ''/'',
                       Key = key,
                       Secret = secret,
                       UserWebToken = userWebToken,
                       HTTPClient = \<lparr> Timeout = defaultTimeout \<rparr>,
                       Token = None,
                       XAuthorization = [] \<rparr>, None), w))"

text \<open>\<^verbatim>\<open>generateParameters\<close>\<close>

definition generateParameters :: "RapidClient \<Rightarrow> bool \<Rightarrow> Values" where
  "generateParameters c isRefresh =
     (if isRefresh \<and> (case Token c of None \<Rightarrow> False | Some t \<Rightarrow> RefreshToken t \<noteq> []) then
        [(''grant_type'', [''refresh_token'']),
         (''refresh_token'', [RefreshToken (the (Token c))])]
      else if UserWebToken c \<noteq> [] then
        [(''grant_type'', [jwtBearerGrant]),
         (''assertion'', [UserWebToken c])]
      else
        [(''grant_type'', [clientCredentialsGrant]),
         (''scope'', [''am_application_scope,default''])])"

text \<open>
  The request that \<^verbatim>\<open>generateOrRefreshToken\<close> sends once \<^verbatim>\<open>http.NewRequest\<close> has
  built \<open>req\<close>: the two headers set on it.
\<close>

definition token_headers :: "env \<Rightarrow> RapidClient \<Rightarrow> http_Request \<Rightarrow> http_Request" where
  "token_headers E c req =
     req\<lparr> req_Header :=
            Header_Set authorizationHeader
              (''Basic '' @ base64_EncodeToString E (Key c @ '':'' @ Secret c))
              (Header_Set ''Content-Type'' contentTypeURLEncoded (req_Header req)) \<rparr>"

text \<open>
  \<^verbatim>\<open>generateOrRefreshToken\<close>: the error returned (\<open>None\<close> for nil), the client and
  the world after the call.
\<close>

definition generateOrRefreshToken ::
  "env \<Rightarrow> bool \<Rightarrow> RapidClient \<Rightarrow> world \<Rightarrow> error option \<times> RapidClient \<times> world" where
  "generateOrRefreshToken E isRefresh c w =
     (let params = generateParameters c isRefresh;
          tokenURL = BaseURL c @ tokenEndpoint
      in case http_NewRequest E ''POST'' tokenURL (Some (Values_Encode E params)) of
           Inl err \<Rightarrow> (Some (ErrTokenGeneration err), c, w)
         | Inr req \<Rightarrow>
             (case Do E (token_headers E c req) w of
                (Failed err, w') \<Rightarrow> (Some (ErrTokenGeneration err), c, w')
              | (Reply resp, w') \<Rightarrow>
                  if resp_StatusCode resp \<noteq> 200 then
                    (Some (ErrUnexpectedStatus (resp_StatusCode resp)), c, w')
                  else
                    (case json_Decode E (resp_Body resp) of
                       Inl err \<Rightarrow> (Some (ErrTokenGeneration err), c, w')
                     | Inr token \<Rightarrow>
                         (None,
                          c\<lparr> Token :=
                               Some (token\<lparr> ExpireTime :=
                                              Add (clock w') (ExpiresIn token * Second) \<rparr>) \<rparr>,
                          w'))))"

text \<open>
  Lines 141 to 150 put together: the request that \<^verbatim>\<open>generateOrRefreshToken\<close> hands
  to the transport, when the token URL, the base URL followed by \<^verbatim>\<open>/token\<close>, parses
  to \<open>u\<close>.
\<close>

definition token_request :: "env \<Rightarrow> RapidClient \<Rightarrow> bool \<Rightarrow> URL \<Rightarrow> http_Request" where
  "token_request E c isRefresh u =
     \<lparr> req_Method = ''POST'',
       req_URL = u\<lparr> Host := removeEmptyPort (Host u) \<rparr>,
       req_Header =
         [(''Content-Type'', [''application/x-www-form-urlencoded'']),
          (''Authorization'', [''Basic '' @ base64_EncodeToString E (Key c @ '':'' @ Secret c)])],
       req_Body = Some (Values_Encode E (generateParameters c isRefresh)) \<rparr>"

definition GenerateToken :: "env \<Rightarrow> RapidClient \<Rightarrow> world \<Rightarrow> error option \<times> RapidClient \<times> world" where
  "GenerateToken E c w = generateOrRefreshToken E False c w"

definition RefreshToken_op :: "env \<Rightarrow> RapidClient \<Rightarrow> world \<Rightarrow> error option \<times> RapidClient \<times> world" where
  "RefreshToken_op E c w = generateOrRefreshToken E True c w"

text \<open>\<^verbatim>\<open>ensureValidToken\<close>\<close>

definition ensureValidToken :: "env \<Rightarrow> RapidClient \<Rightarrow> world \<Rightarrow> error option \<times> RapidClient \<times> world" where
  "ensureValidToken E c w =
     (if (case Token c of None \<Rightarrow> False | Some t \<Rightarrow> IsValid t (clock w)) then (None, c, w)
      else GenerateToken E c w)"

text \<open>
  A request body is a value of any type; the model keeps of it what \<^verbatim>\<open>Request\<close> asks
  of it: whether it implements \<^verbatim>\<open>JSONBody\<close>, and what its \<^verbatim>\<open>RapidJson()\<close>, or
  \<^verbatim>\<open>json.Marshal\<close> of it, returns, an error text or the bytes.
\<close>

datatype body = JSONBody "string + string" | Plain "string + string"

text \<open>Lines 218 to 230: the bytes of the body, \<open>None\<close> for a nil body.\<close>

definition serialize :: "body option \<Rightarrow> string + string option" where
  "serialize b =
     (case b of
        None \<Rightarrow> Inr None
      | Some (JSONBody r) \<Rightarrow> (case r of Inl err \<Rightarrow> Inl err | Inr buf \<Rightarrow> Inr (Some buf))
      | Some (Plain r) \<Rightarrow> (case r of Inl err \<Rightarrow> Inl err | Inr buf \<Rightarrow> Inr (Some buf)))"

text \<open>Lines 208 to 216: the URL of the request, from the parsed base URL.\<close>

definition target_URL :: "env \<Rightarrow> URL \<Rightarrow> string \<Rightarrow> Values \<Rightarrow> URL" where
  "target_URL E u urlPath params =
     (let u' = u\<lparr> Path := filepath_Join [Path u, urlPath] \<rparr>
      in if length params > 0 then u'\<lparr> RawQuery := Values_Encode E params \<rparr> else u')"

text \<open>Lines 237 to 244: the headers set on the request, with the token \<open>t\<close> held.\<close>

definition set_headers :: "RapidClient \<Rightarrow> Token \<Rightarrow> body option \<Rightarrow> http_Request \<Rightarrow> http_Request" where
  "set_headers c t b req =
     (let h1 = Header_Set acceptHeader contentTypeJSON (req_Header req);
          h2 = (if XAuthorization c \<noteq> [] then Header_Set xAuthorizationHeader (XAuthorization c) h1
                else h1);
          h3 = Header_Set authorizationHeader (GetAuthorizationHeader t) h2;
          h4 = (if b \<noteq> None then Header_Set ''Content-Type'' contentTypeJSON h3 else h3)
      in req\<lparr> req_Header := h4 \<rparr>)"

text \<open>
  Lines 208 to 244 of \<^verbatim>\<open>Request\<close>, which touch neither the client nor the world: the
  URL, the body and the request with its headers, or the error returned. Reading the
  token of a client that holds none is the nil dereference of line 241.
\<close>

definition build_request ::
  "env \<Rightarrow> string \<Rightarrow> string \<Rightarrow> body option \<Rightarrow> Values \<Rightarrow> RapidClient
     \<Rightarrow> error + (URL \<times> http_Request)" where
  "build_request E method urlPath b params c =
     (case url_Parse E (BaseURL c) of
        Inl err \<Rightarrow> Inl (ErrParsingBaseURL err)
      | Inr u0 \<Rightarrow>
          let u = target_URL E u0 urlPath params
          in (case serialize b of
                Inl err \<Rightarrow> Inl (ErrMarshalingRequestBody err)
              | Inr reqBody \<Rightarrow>
                  (case http_NewRequest E method (URL_String u) reqBody of
                     Inl err \<Rightarrow> Inl (ErrCreatingRequest err)
                   | Inr req \<Rightarrow>
                       (case Token c of
                          None \<Rightarrow> Inl NilPointerDereference
                        | Some t \<Rightarrow> Inr (u, set_headers c t b req)))))"

text \<open>
  \<^verbatim>\<open>Request\<close>: the pair it returns (\<open>None\<close> for nil), the client and the world after
  the call.
\<close>

definition Request ::
  "env \<Rightarrow> string \<Rightarrow> string \<Rightarrow> body option \<Rightarrow> Values \<Rightarrow> RapidClient \<Rightarrow> world
     \<Rightarrow> (Response option \<times> error option) \<times> RapidClient \<times> world" where
  "Request E method urlPath b params c0 w0 =
     (case ensureValidToken E c0 w0 of
        (Some err, c, w) \<Rightarrow> ((None, Some (ErrEnsuringValidToken err)), c, w)
      | (None, c, w) \<Rightarrow>
          (case build_request E method urlPath b params c of
             Inl err \<Rightarrow> ((None, Some err), c, w)
           | Inr (u, req) \<Rightarrow>
               (case Do E req w of
                  (result, w') \<Rightarrow>
                    let duration = Since (clock w) (clock w')
                    in (case result of
                          Failed err \<Rightarrow> ((None, Some (ErrSendingRequest err)), c, w')
                        | Reply resp \<Rightarrow>
                            ((Some \<lparr> Body = resp_Body resp,
                                     Status = resp_StatusCode resp,
                                     Headers = resp_Header resp,
                                     Error = err_of result,
                                     ResponseTime = duration,
                                     RequestURL = URL_String u \<rparr>,
                              None), c, w')))))"

text \<open>
  The four wrappers. The body of \<^verbatim>\<open>Post\<close> and \<^verbatim>\<open>Put\<close> is a \<^verbatim>\<open>JSONBody\<close>,
  given by what its \<^verbatim>\<open>RapidJson()\<close> returns, or nil.
\<close>

definition Get ::
  "env \<Rightarrow> string \<Rightarrow> Values \<Rightarrow> RapidClient \<Rightarrow> world
     \<Rightarrow> (Response option \<times> error option) \<times> RapidClient \<times> world" where
  "Get E urlPath params c w = Request E ''GET'' urlPath None params c w"

definition Post ::
  "env \<Rightarrow> string \<Rightarrow> (string + string) option \<Rightarrow> RapidClient \<Rightarrow> world
     \<Rightarrow> (Response option \<times> error option) \<times> RapidClient \<times> world" where
  "Post E urlPath b c w = Request E ''POST'' urlPath (map_option JSONBody b) [] c w"

definition Put ::
  "env \<Rightarrow> string \<Rightarrow> (string + string) option \<Rightarrow> RapidClient \<Rightarrow> world
     \<Rightarrow> (Response option \<times> error option) \<times> RapidClient \<times> world" where
  "Put E urlPath b c w = Request E ''PUT'' urlPath (map_option JSONBody b) [] c w"

definition Delete ::
  "env \<Rightarrow> string \<Rightarrow> RapidClient \<Rightarrow> world
     \<Rightarrow> (Response option \<times> error option) \<times> RapidClient \<times> world" where
  "Delete E urlPath c w = Request E ''DELETE'' urlPath None [] c w"

subsection \<open>A sample server\<close>

text \<open>
  Concrete values on which the theorems below are run: a base URL, a client, and an
  environment whose token endpoint, the path \<^verbatim>\<open>/token\<close>, gives the answer
  \<open>token_answer\<close> after 5 nanoseconds. Of its other endpoints, \<^verbatim>\<open>/broken\<close>
  answers 500 and \<^verbatim>\<open>/down\<close> fails in the transport, the rest answer 200, all after
  7 nanoseconds. Its parser knows the URLs made of \<^verbatim>\<open>http://api.example.com\<close>, with
  or without a colon and an empty port, and a path, with neither query nor fragment; its
  encoders are stand-ins for the library's.
\<close>

definition example_URL :: "string \<Rightarrow> URL" where
  "example_URL p =
     \<lparr> Scheme = ''http'', Opaque = [], User = None, Host = ''api.example.com'', Path = p,
       RawPath = [], OmitHost = False, ForceQuery = False, RawQuery = [], Fragment = [],
       RawFragment = [] \<rparr>"

definition example_Parse :: "string \<Rightarrow> string + URL" where
  "example_Parse s =
     (let port = takeWhile (\<lambda>c. c \<noteq> sep) (drop 22 s);
          p = dropWhile (\<lambda>c. c \<noteq> sep) (drop 22 s)
      in if take 22 s = ''http://api.example.com'' \<and> (port = [] \<or> port = '':'')
            \<and> CHR ''?'' \<notin> set s \<and> CHR ''#'' \<notin> set s
         then (case setPath ((example_URL [])\<lparr> Host := ''api.example.com'' @ port \<rparr>) p of
                 None \<Rightarrow> Inl ''invalid URL escape''
               | Some u \<Rightarrow> Inr u)
         else Inl ''parse error'')"

text \<open>
  What this parser makes of \<^verbatim>\<open>http://api.example.com/a%2Fb\<close> followed by \<open>s\<close>,
  a run of separators: the raw path is kept, for it is not the default encoding.
\<close>

definition example_raw_URL :: "string \<Rightarrow> URL" where
  "example_raw_URL s = (example_URL (''/a/b'' @ s))\<lparr> RawPath := ''/a%2Fb'' @ s \<rparr>"

definition example_token_body :: string where
  "example_token_body = ''{access_token:T,expires_in:3600,token_type:Bearer,refresh_token:R}''"

text \<open>A token body whose lifetime, in nanoseconds, is beyond the range of a \<^verbatim>\<open>Duration\<close>.\<close>

definition example_long_body :: string where
  "example_long_body =
     ''{access_token:T,expires_in:9223372037,token_type:Bearer,refresh_token:R}''"

definition example_Decode :: "string \<Rightarrow> string + Token" where
  "example_Decode s =
     (if s = example_token_body then
        Inr \<lparr> Value = ''T'', ExpiresIn = 3600, TokenType = ''Bearer'', RefreshToken = ''R'',
              ExpireTime = 0 \<rparr>
      else if s = example_long_body then
        Inr \<lparr> Value = ''T'', ExpiresIn = 9223372037, TokenType = ''Bearer'',
              RefreshToken = ''R'', ExpireTime = 0 \<rparr>
      else Inl ''invalid character'')"

definition example_env :: "transport_result \<Rightarrow> env" where
  "example_env token_answer =
     \<lparr> url_Parse = example_Parse,
       strconv_Quote = (\<lambda>s. [CHR 0x22] @ s @ [CHR 0x22]),
       Values_Encode = (\<lambda>v. concat (map (\<lambda>(k, vs). k @ ''='' @ concat vs @ ''&'') v)),
       base64_EncodeToString = (\<lambda>s. s),
       json_Decode = example_Decode,
       transport =
         (\<lambda>before req.
            if Path (req_URL req) = ''/token'' then (5, token_answer)
            else if Path (req_URL req) = ''/broken'' then
              (7, Reply \<lparr> resp_StatusCode = 500, resp_Header = [],
                          resp_Body = ''{message:failure}'' \<rparr>)
            else if Path (req_URL req) = ''/down'' then (7, Failed ''connection reset'')
            else (7, Reply \<lparr> resp_StatusCode = 200, resp_Header = [],
                             resp_Body = ''{message:success}'' \<rparr>)) \<rparr>"

definition example_token_reply :: transport_result where
  "example_token_reply =
     Reply \<lparr> resp_StatusCode = 200, resp_Header = [], resp_Body = example_token_body \<rparr>"

definition example_client :: RapidClient where
  "example_client =
     \<lparr> BaseURL = ''http://api.example.com'', Key = ''k'', Secret = ''s'', UserWebToken = [],
       HTTPClient = \<lparr> Timeout = defaultTimeout \<rparr>, Token = None, XAuthorization = [] \<rparr>"

definition example_world :: world where
  "example_world = \<lparr> clock = 100, sent = [] \<rparr>"

text \<open>The sample client holding a token made at the time 100 that lasts an hour.\<close>

definition example_valid_client :: RapidClient where
  "example_valid_client = example_client\<lparr>Token := Some (NewToken ''T0'' 3600 ''Bearer'' ''R0'' 100)\<rparr>"

text \<open>The same client with a value for the extra authorization header.\<close>

definition example_xauth_client :: RapidClient where
  "example_xauth_client = example_valid_client\<lparr>XAuthorization := ''xa''\<rparr>"

section \<open>Properties\<close>

subsection \<open>The token exchange, step by step\<close>

lemma validMethod_POST: "validMethod ''POST''"
  by (simp add: validMethod_def isTokenChar_def)

lemma http_NewRequest_POST:
  "http_NewRequest E ''POST'' url b =
     (case url_Parse E url of
        Inl err \<Rightarrow> Inl err
      | Inr u \<Rightarrow>
          Inr \<lparr> req_Method = ''POST'', req_URL = u\<lparr> Host := removeEmptyPort (Host u) \<rparr>,
                req_Header = [], req_Body = b \<rparr>)"
  using validMethod_POST by (simp add: http_NewRequest_def)

lemma Do_sent: "sent (snd (Do E req w)) = sent w @ [req]"
  by (simp add: Do_def split: prod.splits)

lemma token_headers_eq:
  "token_headers E c \<lparr> req_Method = ''POST'', req_URL = u\<lparr> Host := removeEmptyPort (Host u) \<rparr>,
       req_Header = [], req_Body = Some (Values_Encode E (generateParameters c r)) \<rparr>
     = token_request E c r u"
  by (simp add: token_headers_def token_request_def Header_Set_def tokenEndpoint_def
      authorizationHeader_def contentTypeURLEncoded_def)

lemma generateOrRefreshToken_unparsed:
  "url_Parse E (BaseURL c @ ''/token'') = Inl e \<Longrightarrow>
   generateOrRefreshToken E r c w = (Some (ErrTokenGeneration e), c, w)"
  by (simp add: generateOrRefreshToken_def http_NewRequest_POST tokenEndpoint_def)

lemma generateOrRefreshToken_parsed:
  "url_Parse E (BaseURL c @ ''/token'') = Inr u \<Longrightarrow>
   generateOrRefreshToken E r c w =
     (case Do E (token_request E c r u) w of
        (Failed err, w') \<Rightarrow> (Some (ErrTokenGeneration err), c, w')
      | (Reply resp, w') \<Rightarrow>
          if resp_StatusCode resp \<noteq> 200 then
            (Some (ErrUnexpectedStatus (resp_StatusCode resp)), c, w')
          else
            (case json_Decode E (resp_Body resp) of
               Inl err \<Rightarrow> (Some (ErrTokenGeneration err), c, w')
             | Inr token \<Rightarrow>
                 (None,
                  c\<lparr> Token := Some (token\<lparr> ExpireTime := Add (clock w') (ExpiresIn token * Second) \<rparr>) \<rparr>,
                  w')))"
  using token_headers_eq [of E c u r]
  by (simp add: generateOrRefreshToken_def http_NewRequest_POST tokenEndpoint_def)

lemma generateOrRefreshToken_world:
  "snd (snd (generateOrRefreshToken E r c w)) =
     (case url_Parse E (BaseURL c @ ''/token'') of
        Inl e \<Rightarrow> w
      | Inr u \<Rightarrow> snd (Do E (token_request E c r u) w))"
  by (cases "url_Parse E (BaseURL c @ ''/token'')")
     (auto simp: generateOrRefreshToken_unparsed generateOrRefreshToken_parsed
           split: prod.splits transport_result.splits sum.splits)

lemma generateOrRefreshToken_BaseURL:
  "BaseURL (fst (snd (generateOrRefreshToken E r c w))) = BaseURL c"
  by (cases "url_Parse E (BaseURL c @ ''/token'')")
     (auto simp: generateOrRefreshToken_unparsed generateOrRefreshToken_parsed
           split: prod.splits transport_result.splits sum.splits)

subsection \<open>The sample server, evaluated\<close>

lemma example_Parse_token:
  "example_Parse ''http://api.example.com/token'' = Inr (example_URL ''/token'')"
  by code_simp

lemma example_parse_token:
  "url_Parse (example_env a) (BaseURL example_client @ ''/token'') = Inr (example_URL ''/token'')"
  by (simp add: example_env_def example_client_def example_Parse_token)

lemma example_transport_token:
  "transport (example_env a) before (token_request (example_env a) c r (example_URL ''/token''))
     = (5, a)"
  by (simp add: example_env_def token_request_def example_URL_def)

subsection \<open>Token lifetime\<close>

lemma sint_seconds:
  fixes L :: go_int
  assumes "- (2 ^ 63) \<le> sint L * 1000000000" "sint L * 1000000000 < 2 ^ 63"
  shows "sint (L * Second) = sint L * 1000000000"
proof -
  have "sint (L * Second) = signed_take_bit 63 (sint L * sint (1000000000 :: 64 word))"
    by (simp add: Second_def sint_word_ariths)
  also have "sint (1000000000 :: 64 word) = 1000000000"
    by simp
  also have "signed_take_bit 63 (sint L * 1000000000) = sint L * 1000000000"
    using assms by (simp add: signed_take_bit_int_eq_self)
  finally show ?thesis .
qed

text \<open>
  C2. A token made by \<^verbatim>\<open>NewToken\<close> at time \<open>t\<close> with a lifetime of \<open>L\<close> seconds
  is valid at the time \<open>now\<close> exactly when \<open>now\<close> is strictly before \<open>t\<close> plus
  \<open>L\<close> seconds, with no grace period, for every lifetime whose count of nanoseconds
  fits a \<^verbatim>\<open>Duration\<close>. In particular it is valid at \<open>t\<close> when \<open>L > 0\<close>, and
  invalid from \<open>t + L\<close> seconds on.
\<close>

theorem IsValid_NewToken:
  fixes L :: go_int
  assumes "- (2 ^ 63) \<le> sint L * 1000000000" and "sint L * 1000000000 < 2 ^ 63"
  shows "IsValid (NewToken v L ty r t) now \<longleftrightarrow> now < t + sint L * 1000000000"
  using sint_seconds [OF assms] by (simp add: IsValid_def NewToken_def Before_def Add_def)

theorem IsValid_NewToken_witness:
  "- (2 ^ 63) \<le> sint (3600 :: go_int) * 1000000000
   \<and> sint (3600 :: go_int) * 1000000000 < 2 ^ 63
   \<and> IsValid (NewToken ''T'' 3600 ''Bearer'' ''R'' 0) 0
   \<and> IsValid (NewToken ''T'' 3600 ''Bearer'' ''R'' 0) 3599999999999
   \<and> \<not> IsValid (NewToken ''T'' 3600 ''Bearer'' ''R'' 0) 3600000000000"
  using IsValid_NewToken [of 3600 "''T''" "''Bearer''" "''R''" 0]
  by simp

text \<open>
  As the claim states it, for every lifetime, it fails: the product of 9223372037 seconds
  and \<^verbatim>\<open>time.Second\<close> wraps around to a negative \<^verbatim>\<open>Duration\<close>, and the token is
  invalid at the moment it is made.
\<close>

theorem IsValid_NewToken_counterexample:
  "0 < sint (9223372037 :: go_int)
   \<and> \<not> IsValid (NewToken ''T'' 9223372037 ''Bearer'' ''R'' 0) 0"
  by (simp add: IsValid_def NewToken_def Before_def Add_def Second_def)

subsection \<open>Grant parameters\<close>

text \<open>
  C3. The parameters of a credential exchange: the refresh grant with the stored refresh
  value when a refresh is asked for and the held token has a non-empty refresh value;
  otherwise the JWT-bearer grant with the user assertion when one is configured;
  otherwise the client-credentials grant with the fixed scope. A refresh with no token
  held takes the parameters of a fresh generation. The encoded parameters are the body
  of the request the exchange sends.
\<close>

theorem generateParameters_grant:
  "(isRefresh \<and> Token c = Some t \<and> RefreshToken t \<noteq> [] \<longrightarrow>
      generateParameters c isRefresh =
        [(''grant_type'', [''refresh_token'']), (''refresh_token'', [RefreshToken t])])
   \<and> (\<not> (isRefresh \<and> (\<exists>t. Token c = Some t \<and> RefreshToken t \<noteq> [])) \<and> UserWebToken c \<noteq> [] \<longrightarrow>
      generateParameters c isRefresh =
        [(''grant_type'', [''urn:ietf:params:oauth:grant-type:jwt-bearer'']),
         (''assertion'', [UserWebToken c])])
   \<and> (\<not> (isRefresh \<and> (\<exists>t. Token c = Some t \<and> RefreshToken t \<noteq> [])) \<and> UserWebToken c = [] \<longrightarrow>
      generateParameters c isRefresh =
        [(''grant_type'', [''client_credentials'']),
         (''scope'', [''am_application_scope,default''])])
   \<and> (Token c = None \<longrightarrow> generateParameters c True = generateParameters c False)
   \<and> (url_Parse E (BaseURL c @ ''/token'') = Inr u \<longrightarrow>
      map req_Body (sent (snd (snd (generateOrRefreshToken E isRefresh c w)))) =
        map req_Body (sent w) @ [Some (Values_Encode E (generateParameters c isRefresh))])"
proof -
  have "url_Parse E (BaseURL c @ ''/token'') = Inr u \<Longrightarrow>
    map req_Body (sent (snd (snd (generateOrRefreshToken E isRefresh c w)))) =
      map req_Body (sent w) @ [Some (Values_Encode E (generateParameters c isRefresh))]"
    by (simp add: generateOrRefreshToken_world Do_sent token_request_def)
  then show ?thesis
    by (auto simp: generateParameters_def jwtBearerGrant_def clientCredentialsGrant_def
             split: option.splits)
qed

theorem generateParameters_grant_witness:
  "generateParameters
     (example_client\<lparr>Token := Some (NewToken ''T'' 3600 ''Bearer'' ''R'' 0), UserWebToken := ''jwt''\<rparr>)
     True = [(''grant_type'', [''refresh_token'']), (''refresh_token'', [''R''])]
   \<and> generateParameters
     (example_client\<lparr>Token := Some (NewToken ''T'' 3600 ''Bearer'' ''R'' 0), UserWebToken := ''jwt''\<rparr>)
     False = [(''grant_type'', [''urn:ietf:params:oauth:grant-type:jwt-bearer'']),
              (''assertion'', [''jwt''])]
   \<and> generateParameters example_client True =
       [(''grant_type'', [''client_credentials'']), (''scope'', [''am_application_scope,default''])]
   \<and> map req_Body (sent (snd (snd
        (generateOrRefreshToken (example_env example_token_reply) True example_client example_world)))) =
       [Some ''grant_type=client_credentials&scope=am_application_scope,default&'']"
proof -
  let ?c = "example_client\<lparr>Token := Some (NewToken ''T'' 3600 ''Bearer'' ''R'' 0),
              UserWebToken := ''jwt''\<rparr>"
  have p: "url_Parse (example_env example_token_reply) (BaseURL example_client @ ''/token'')
             = Inr (example_URL ''/token'')"
    by (rule example_parse_token)
  show ?thesis
    using generateParameters_grant [of True ?c "NewToken ''T'' 3600 ''Bearer'' ''R'' 0"]
          generateParameters_grant [of False ?c]
          generateParameters_grant [of True example_client _
            "example_env example_token_reply" "example_URL ''/token''" example_world] p
    by (simp add: example_client_def NewToken_def example_env_def example_world_def)
qed

subsection \<open>Construction of the client\<close>

text \<open>
  C6. If the base URL, the key or the secret is empty or not set, \<^verbatim>\<open>NewRapidClient\<close>
  returns a nil client and the configuration error; if all three are there it returns a
  client and a nil error. Either way the world is as it was: nothing is sent.
\<close>

theorem NewRapidClient_config:
  "(os_Getenv environ ''RAPID_BASE_URL'' = [] \<or> os_Getenv environ ''RAPID_KEY'' = []
      \<or> os_Getenv environ ''RAPID_SECRET'' = [] \<longrightarrow>
      fst (NewRapidClient environ w) = (None, Some ErrInvalidConfig))
   \<and> (os_Getenv environ ''RAPID_BASE_URL'' \<noteq> [] \<and> os_Getenv environ ''RAPID_KEY'' \<noteq> []
      \<and> os_Getenv environ ''RAPID_SECRET'' \<noteq> [] \<longrightarrow>
      (\<exists>c. fst (NewRapidClient environ w) = (Some c, None)))
   \<and> snd (NewRapidClient environ w) = w"
  by (simp add: NewRapidClient_def Let_def)

theorem NewRapidClient_config_witness:
  "fst (NewRapidClient [(''RAPID_BASE_URL'', ''http://api.example.com''), (''RAPID_SECRET'', ''s'')]
          example_world) = (None, Some ErrInvalidConfig)
   \<and> fst (fst (NewRapidClient [(''RAPID_BASE_URL'', ''http://api.example.com''),
              (''RAPID_KEY'', ''k''), (''RAPID_SECRET'', ''s'')] example_world)) \<noteq> None
   \<and> snd (fst (NewRapidClient [(''RAPID_BASE_URL'', ''http://api.example.com''),
              (''RAPID_KEY'', ''k''), (''RAPID_SECRET'', ''s'')] example_world)) = None"
  using NewRapidClient_config
          [of "[(''RAPID_BASE_URL'', ''http://api.example.com''), (''RAPID_SECRET'', ''s'')]"
              example_world]
        NewRapidClient_config
          [of "[(''RAPID_BASE_URL'', ''http://api.example.com''), (''RAPID_KEY'', ''k''),
                (''RAPID_SECRET'', ''s'')]" example_world]
  by (auto simp: os_Getenv_def)

subsection \<open>Failure of the token exchange\<close>

text \<open>
  C4. When the token endpoint answers with a status other than 200, the exchange, fresh
  or refresh, returns the unexpected-status error with that status, and the client is
  what it was before the call, the token it held included. The same holds for every
  other failure: whenever the exchange returns an error the client is unchanged, and
  the error is the token-generation error when the request cannot be built, when the
  transport fails and when the body does not decode.
\<close>

theorem generateOrRefreshToken_failure:
  "(fst (generateOrRefreshToken E r c w) \<noteq> None \<longrightarrow> fst (snd (generateOrRefreshToken E r c w)) = c)
   \<and> (url_Parse E (BaseURL c @ ''/token'') = Inr u
        \<and> snd (transport E (sent w) (token_request E c r u)) = Reply resp
        \<and> resp_StatusCode resp \<noteq> 200 \<longrightarrow>
      fst (generateOrRefreshToken E r c w) = Some (ErrUnexpectedStatus (resp_StatusCode resp))
      \<and> Token (fst (snd (generateOrRefreshToken E r c w))) = Token c)
   \<and> (url_Parse E (BaseURL c @ ''/token'') = Inl e \<longrightarrow>
      fst (generateOrRefreshToken E r c w) = Some (ErrTokenGeneration e))
   \<and> (url_Parse E (BaseURL c @ ''/token'') = Inr u
        \<and> snd (transport E (sent w) (token_request E c r u)) = Failed e \<longrightarrow>
      fst (generateOrRefreshToken E r c w) = Some (ErrTokenGeneration e))
   \<and> (url_Parse E (BaseURL c @ ''/token'') = Inr u
        \<and> snd (transport E (sent w) (token_request E c r u)) = Reply resp
        \<and> resp_StatusCode resp = 200 \<and> json_Decode E (resp_Body resp) = Inl e \<longrightarrow>
      fst (generateOrRefreshToken E r c w) = Some (ErrTokenGeneration e))"
proof -
  have unchanged: "fst (generateOrRefreshToken E r c w) \<noteq> None \<Longrightarrow>
      fst (snd (generateOrRefreshToken E r c w)) = c"
    by (cases "url_Parse E (BaseURL c @ ''/token'')")
       (auto simp: generateOrRefreshToken_unparsed generateOrRefreshToken_parsed
             split: prod.splits transport_result.splits sum.splits if_splits)
  have parsed: "url_Parse E (BaseURL c @ ''/token'') = Inr u \<Longrightarrow>
      fst (generateOrRefreshToken E r c w) =
        (case snd (transport E (sent w) (token_request E c r u)) of
           Failed err \<Rightarrow> Some (ErrTokenGeneration err)
         | Reply resp \<Rightarrow>
             if resp_StatusCode resp \<noteq> 200 then Some (ErrUnexpectedStatus (resp_StatusCode resp))
             else (case json_Decode E (resp_Body resp) of
                     Inl err \<Rightarrow> Some (ErrTokenGeneration err) | Inr token \<Rightarrow> None))"
    by (simp add: generateOrRefreshToken_parsed Do_def
             split: prod.splits transport_result.splits sum.splits)
  show ?thesis
    using unchanged by (simp add: parsed generateOrRefreshToken_unparsed)
qed

theorem generateOrRefreshToken_failure_witness:
  "fst (generateOrRefreshToken
          (example_env (Reply \<lparr>resp_StatusCode = 201, resp_Header = [], resp_Body = example_token_body\<rparr>))
          True (example_client\<lparr>Token := Some (NewToken ''T0'' 3600 ''Bearer'' ''R0'' 0)\<rparr>) example_world)
     = Some (ErrUnexpectedStatus 201)
   \<and> Token (fst (snd (generateOrRefreshToken
          (example_env (Reply \<lparr>resp_StatusCode = 201, resp_Header = [], resp_Body = example_token_body\<rparr>))
          True (example_client\<lparr>Token := Some (NewToken ''T0'' 3600 ''Bearer'' ''R0'' 0)\<rparr>) example_world)))
     = Some (NewToken ''T0'' 3600 ''Bearer'' ''R0'' 0)
   \<and> fst (generateOrRefreshToken (example_env (Failed ''timeout'')) False
          (example_client\<lparr>Token := None\<rparr>) example_world) = Some (ErrTokenGeneration ''timeout'')
   \<and> fst (generateOrRefreshToken
          (example_env (Reply \<lparr>resp_StatusCode = 200, resp_Header = [], resp_Body = ''<html>''\<rparr>)) False
          (example_client\<lparr>Token := None\<rparr>) example_world)
     = Some (ErrTokenGeneration ''invalid character'')"
proof -
  let ?a = "\<lparr>resp_StatusCode = 201, resp_Header = [], resp_Body = example_token_body\<rparr>"
  let ?b = "\<lparr>resp_StatusCode = 200, resp_Header = [], resp_Body = ''<html>''\<rparr>"
  let ?t = "Some (NewToken ''T0'' 3600 ''Bearer'' ''R0'' 0)"
  have d: "json_Decode (example_env (Reply ?b)) (resp_Body ?b) = Inl ''invalid character''"
    by (simp add: example_env_def example_Decode_def example_token_body_def
          example_long_body_def)
  show ?thesis
    using generateOrRefreshToken_failure
            [of "example_env (Reply ?a)" True "example_client\<lparr>Token := ?t\<rparr>" example_world
                "example_URL ''/token''" ?a]
          generateOrRefreshToken_failure
            [of "example_env (Failed ''timeout'')" False "example_client\<lparr>Token := None\<rparr>"
                example_world "example_URL ''/token''" _ "''timeout''"]
          generateOrRefreshToken_failure
            [of "example_env (Reply ?b)" False "example_client\<lparr>Token := None\<rparr>"
                example_world "example_URL ''/token''" ?b "''invalid character''"]
          d
    by (simp add: example_parse_token example_transport_token)
qed

subsection \<open>Success of the token exchange\<close>

text \<open>
  C5. When the token endpoint answers 200 with a body that decodes to the value \<open>T\<close>,
  the lifetime \<open>N\<close>, the type \<^verbatim>\<open>Bearer\<close> and the refresh value \<open>R\<close>, the
  exchange, fresh or refresh, returns no error and replaces the held token by the decoded
  one, whatever was held: its value is \<open>T\<close>, its authorization header is
  \<^verbatim>\<open>Bearer T\<close>, its refresh value is \<open>R\<close>, and its expiry is the reading of the
  clock after the exchange, not before it, plus \<open>N\<close> seconds, for every \<open>N\<close>
  whose count of nanoseconds fits a \<^verbatim>\<open>Duration\<close>.
\<close>


theorem generateOrRefreshToken_success:
  assumes "url_Parse E (BaseURL c @ ''/token'') = Inr u"
    and "transport E (sent w) (token_request E c r u) = (taken, Reply resp)"
    and "resp_StatusCode resp = 200"
    and "json_Decode E (resp_Body resp) = Inr tok"
    and "Value tok = T" and "ExpiresIn tok = N" and "TokenType tok = ''Bearer''"
    and "RefreshToken tok = R"
    and "- (2 ^ 63) \<le> sint N * 1000000000" and "sint N * 1000000000 < 2 ^ 63"
  shows "fst (generateOrRefreshToken E r c w) = None
    \<and> fst (snd (generateOrRefreshToken E r c w)) =
        c\<lparr>Token := Some (tok\<lparr>ExpireTime := clock w + int taken + sint N * 1000000000\<rparr>)\<rparr>
    \<and> map_option Value (Token (fst (snd (generateOrRefreshToken E r c w)))) = Some T
    \<and> map_option GetAuthorizationHeader (Token (fst (snd (generateOrRefreshToken E r c w))))
        = Some (''Bearer '' @ T)
    \<and> map_option RefreshToken (Token (fst (snd (generateOrRefreshToken E r c w)))) = Some R
    \<and> map_option ExpireTime (Token (fst (snd (generateOrRefreshToken E r c w))))
        = Some (clock w + int taken + sint N * 1000000000)
    \<and> clock (snd (snd (generateOrRefreshToken E r c w))) = clock w + int taken"
  using assms sint_seconds [of N]
  by (simp add: generateOrRefreshToken_parsed Do_def Add_def GetAuthorizationHeader_def)

theorem generateOrRefreshToken_success_witness:
  "fst (generateOrRefreshToken (example_env example_token_reply) False
          (example_client\<lparr>Token := None\<rparr>) example_world) = None
   \<and> Token (fst (snd (generateOrRefreshToken (example_env example_token_reply) False
          (example_client\<lparr>Token := None\<rparr>) example_world)))
       = Some \<lparr>Value = ''T'', ExpiresIn = 3600, TokenType = ''Bearer'', RefreshToken = ''R'',
               ExpireTime = 3600000000105\<rparr>
   \<and> Token (fst (snd (generateOrRefreshToken (example_env example_token_reply) True
          (example_client\<lparr>Token := Some (NewToken ''T0'' 1 ''Bearer'' ''R0'' 0)\<rparr>) example_world)))
       = Some \<lparr>Value = ''T'', ExpiresIn = 3600, TokenType = ''Bearer'', RefreshToken = ''R'',
               ExpireTime = 3600000000105\<rparr>"
proof -
  let ?E = "example_env example_token_reply"
  let ?tok = "\<lparr>Value = ''T'', ExpiresIn = 3600, TokenType = ''Bearer'', RefreshToken = ''R'',
               ExpireTime = 0\<rparr>"
  let ?resp = "\<lparr>resp_StatusCode = 200, resp_Header = [], resp_Body = example_token_body\<rparr>"
  have d: "json_Decode ?E (resp_Body ?resp) = Inr ?tok"
    by (simp add: example_env_def example_Decode_def)
  have t: "transport ?E (sent example_world)
             (token_request ?E (example_client\<lparr>Token := t\<rparr>) r (example_URL ''/token''))
             = (5, Reply ?resp)" for t r
    by (simp add: example_transport_token example_token_reply_def)
  have p: "url_Parse ?E (BaseURL (example_client\<lparr>Token := t\<rparr>) @ ''/token'')
             = Inr (example_URL ''/token'')" for t
    by (simp add: example_parse_token)
  have n: "- (2 ^ 63) \<le> sint (3600 :: go_int) * 1000000000"
          "sint (3600 :: go_int) * 1000000000 < 2 ^ 63"
    by simp_all
  show ?thesis
    using generateOrRefreshToken_success
            [where c = "example_client\<lparr>Token := None\<rparr>" and r = False,
             OF p t _ d refl refl _ refl]
          generateOrRefreshToken_success
            [where c = "example_client\<lparr>Token := Some (NewToken ''T0'' 1 ''Bearer'' ''R0'' 0)\<rparr>"
               and r = True, OF p t _ d refl refl _ refl]
          n
    by (simp add: example_world_def example_client_def)
qed

text \<open>
  For every \<open>N\<close>, as the claim states it, the expiry is not the parse time plus
  \<open>N\<close> seconds: with \<^verbatim>\<open>expires_in\<close> 9223372037 the product with
  \<^verbatim>\<open>time.Second\<close> wraps around, and the expiry lies before the parse time 105.
\<close>

theorem generateOrRefreshToken_success_counterexample:
  "map_option ExpireTime (Token (fst (snd (generateOrRefreshToken
      (example_env (Reply \<lparr>resp_StatusCode = 200, resp_Header = [],
                            resp_Body = example_long_body\<rparr>))
      False example_client example_world))))
   = Some (- 9223372036709551511)
   \<and> clock (snd (snd (generateOrRefreshToken
      (example_env (Reply \<lparr>resp_StatusCode = 200, resp_Header = [],
                            resp_Body = example_long_body\<rparr>))
      False example_client example_world))) = 105
   \<and> - 9223372036709551511 \<noteq> (105 :: int) + 9223372037 * 1000000000"
  by code_simp

subsection \<open>The token step of a request\<close>

lemma ensureValidToken_valid:
  "Token c = Some t \<Longrightarrow> IsValid t (clock w) \<Longrightarrow> ensureValidToken E c w = (None, c, w)"
  by (simp add: ensureValidToken_def)

lemma ensureValidToken_invalid:
  "\<not> (\<exists>t. Token c = Some t \<and> IsValid t (clock w)) \<Longrightarrow>
   ensureValidToken E c w = generateOrRefreshToken E False c w"
  by (auto simp: ensureValidToken_def GenerateToken_def split: option.splits)

lemma generateOrRefreshToken_Token:
  "fst (generateOrRefreshToken E r c w) = None \<Longrightarrow>
   Token (fst (snd (generateOrRefreshToken E r c w))) \<noteq> None"
  by (cases "url_Parse E (BaseURL c @ ''/token'')")
     (auto simp: generateOrRefreshToken_unparsed generateOrRefreshToken_parsed
           split: prod.splits transport_result.splits sum.splits if_splits)

lemma ensureValidToken_Token:
  "fst (ensureValidToken E c w) = None \<Longrightarrow> Token (fst (snd (ensureValidToken E c w))) \<noteq> None"
  using generateOrRefreshToken_Token [of E False c w]
  by (auto simp: ensureValidToken_def GenerateToken_def split: option.splits if_splits)

text \<open>What \<^verbatim>\<open>Request\<close> sends after the token step, with the client \<open>c\<close> of that moment.\<close>

lemma Request_sent:
  "sent (snd (snd (Request E m p b q c w))) =
     sent (snd (snd (ensureValidToken E c w)))
     @ (if fst (ensureValidToken E c w) = None
        then (case build_request E m p b q (fst (snd (ensureValidToken E c w))) of
                Inl err \<Rightarrow> [] | Inr (u, req) \<Rightarrow> [req])
        else [])"
  by (auto simp: Request_def Do_def Let_def
           split: prod.splits option.splits sum.splits transport_result.splits)

lemma Request_client:
  "fst (snd (Request E m p b q c w)) = fst (snd (ensureValidToken E c w))"
  by (auto simp: Request_def Do_def Let_def
           split: prod.splits option.splits sum.splits transport_result.splits)

lemma generateParameters_fresh:
  "map_of (generateParameters c False) ''grant_type'' \<noteq> Some [''refresh_token'']"
  by (simp add: generateParameters_def jwtBearerGrant_def clientCredentialsGrant_def)

lemma example_build_valid:
  "build_request (example_env example_token_reply) ''GET'' ''/widgets'' None [] example_valid_client =
     Inr (example_URL ''/widgets'',
          \<lparr>req_Method = ''GET'', req_URL = example_URL ''/widgets'',
            req_Header = [(''Accept'', [''application/json'']), (''Authorization'', [''Bearer T0''])],
            req_Body = None\<rparr>)"
  by code_simp

lemma example_generate:
  "generateOrRefreshToken (example_env example_token_reply) False example_client example_world =
     (None,
      example_client\<lparr>Token := Some \<lparr>Value = ''T'', ExpiresIn = 3600, TokenType = ''Bearer'',
                                    RefreshToken = ''R'', ExpireTime = 3600000000105\<rparr>\<rparr>,
      \<lparr>clock = 105, sent = [token_request (example_env example_token_reply) example_client False (example_URL ''/token'')]\<rparr>)"
  by code_simp

lemma example_build_fresh:
  "build_request (example_env example_token_reply) ''GET'' ''/widgets'' None []
     (example_client\<lparr>Token := Some \<lparr>Value = ''T'', ExpiresIn = 3600, TokenType = ''Bearer'',
                                    RefreshToken = ''R'', ExpireTime = 3600000000105\<rparr>\<rparr>) =
     Inr (example_URL ''/widgets'',
          \<lparr>req_Method = ''GET'', req_URL = example_URL ''/widgets'',
            req_Header = [(''Accept'', [''application/json'']), (''Authorization'', [''Bearer T''])],
            req_Body = None\<rparr>)"
  by code_simp

text \<open>
  C1. \<^verbatim>\<open>Request\<close> begins with \<^verbatim>\<open>ensureValidToken\<close>. With a token held that is valid
  at the reading of the clock, nothing is generated: the client, and so the token, is
  unchanged, and all that \<^verbatim>\<open>Request\<close> sends is the request to the target. With no
  token held, or one that is not valid, the step is one run of the exchange with
  \<open>isRefresh = False\<close>: its request, whose grant is never the refresh grant, goes
  out once, before the request to the target, which is sent only if the exchange
  succeeded (and if the token URL does not parse nothing is sent at all).
\<close>

theorem Request_ensures_token:
  "((\<exists>t. Token c = Some t \<and> IsValid t (clock w)) \<longrightarrow>
        ensureValidToken E c w = (None, c, w)
      \<and> fst (snd (Request E m p b q c w)) = c
      \<and> sent (snd (snd (Request E m p b q c w))) =
          sent w @ (case build_request E m p b q c of Inl err \<Rightarrow> [] | Inr (u, req) \<Rightarrow> [req]))
   \<and> (\<not> (\<exists>t. Token c = Some t \<and> IsValid t (clock w)) \<longrightarrow>
        ensureValidToken E c w = generateOrRefreshToken E False c w
      \<and> fst (snd (Request E m p b q c w)) = fst (snd (generateOrRefreshToken E False c w))
      \<and> sent (snd (snd (Request E m p b q c w))) =
          sent w
          @ (case url_Parse E (BaseURL c @ ''/token'') of
               Inl err \<Rightarrow> [] | Inr u \<Rightarrow> [token_request E c False u])
          @ (if fst (generateOrRefreshToken E False c w) = None
             then (case build_request E m p b q (fst (snd (generateOrRefreshToken E False c w))) of
                     Inl err \<Rightarrow> [] | Inr (u, req) \<Rightarrow> [req])
             else [])
      \<and> req_Body (token_request E c False u) = Some (Values_Encode E (generateParameters c False))
      \<and> map_of (generateParameters c False) ''grant_type'' \<noteq> Some [''refresh_token''])"
proof (intro conjI impI)
  assume v: "\<exists>t. Token c = Some t \<and> IsValid t (clock w)"
  then show e: "ensureValidToken E c w = (None, c, w)"
    by (auto simp: ensureValidToken_valid)
  show "fst (snd (Request E m p b q c w)) = c"
    by (simp add: Request_client e)
  show "sent (snd (snd (Request E m p b q c w))) =
          sent w @ (case build_request E m p b q c of Inl err \<Rightarrow> [] | Inr (u, req) \<Rightarrow> [req])"
    by (simp add: Request_sent e)
next
  assume n: "\<not> (\<exists>t. Token c = Some t \<and> IsValid t (clock w))"
  then show e: "ensureValidToken E c w = generateOrRefreshToken E False c w"
    by (rule ensureValidToken_invalid)
  show "fst (snd (Request E m p b q c w)) = fst (snd (generateOrRefreshToken E False c w))"
    by (simp add: Request_client e)
  have "sent (snd (snd (generateOrRefreshToken E False c w))) =
          sent w @ (case url_Parse E (BaseURL c @ ''/token'') of
                      Inl err \<Rightarrow> [] | Inr u \<Rightarrow> [token_request E c False u])"
    by (simp add: generateOrRefreshToken_world Do_sent split: sum.splits)
  then show "sent (snd (snd (Request E m p b q c w))) =
          sent w
          @ (case url_Parse E (BaseURL c @ ''/token'') of
               Inl err \<Rightarrow> [] | Inr u \<Rightarrow> [token_request E c False u])
          @ (if fst (generateOrRefreshToken E False c w) = None
             then (case build_request E m p b q (fst (snd (generateOrRefreshToken E False c w))) of
                     Inl err \<Rightarrow> [] | Inr (u, req) \<Rightarrow> [req])
             else [])"
    by (simp add: Request_sent e)
  show "req_Body (token_request E c False u) = Some (Values_Encode E (generateParameters c False))"
    by (simp add: token_request_def)
  show "map_of (generateParameters c False) ''grant_type'' \<noteq> Some [''refresh_token'']"
    by (rule generateParameters_fresh)
qed


theorem Request_ensures_token_witness:
  "sent (snd (snd (Request (example_env example_token_reply) ''GET'' ''/widgets'' None []
       example_valid_client example_world))) =
     [\<lparr>req_Method = ''GET'', req_URL = example_URL ''/widgets'',
       req_Header = [(''Accept'', [''application/json'']), (''Authorization'', [''Bearer T0''])],
       req_Body = None\<rparr>]
   \<and> fst (snd (Request (example_env example_token_reply) ''GET'' ''/widgets'' None []
       example_valid_client example_world)) = example_valid_client
   \<and> sent (snd (snd (Request (example_env example_token_reply) ''GET'' ''/widgets'' None []
       example_client example_world))) =
     [token_request (example_env example_token_reply) example_client False (example_URL ''/token''),
      \<lparr>req_Method = ''GET'', req_URL = example_URL ''/widgets'',
       req_Header = [(''Accept'', [''application/json'']), (''Authorization'', [''Bearer T''])],
       req_Body = None\<rparr>]"
proof -
  let ?E = "example_env example_token_reply"
  have v: "\<exists>t. Token example_valid_client = Some t \<and> IsValid t (clock example_world)"
    by (simp add: example_valid_client_def example_world_def IsValid_def NewToken_def Before_def
        Add_def Second_def)
  have n: "\<not> (\<exists>t. Token example_client = Some t \<and> IsValid t (clock example_world))"
    by (simp add: example_client_def)
  have s: "sent example_world = []"
    by (simp add: example_world_def)
  note valid = Request_ensures_token
      [of example_valid_client example_world ?E "''GET''" "''/widgets''" None "[]",
       THEN conjunct1, rule_format, OF v]
  note fresh = Request_ensures_token
      [of example_client example_world ?E "''GET''" "''/widgets''" None "[]",
       THEN conjunct2, rule_format, OF n]
  from valid fresh show ?thesis
    by (simp add: example_build_valid example_generate example_build_fresh example_parse_token s)
qed

subsection \<open>The request that is sent\<close>

lemma Request_eq:
  "Request E m p b q c w =
     (case ensureValidToken E c w of
        (Some e, c1, w1) \<Rightarrow> ((None, Some (ErrEnsuringValidToken e)), c1, w1)
      | (None, c1, w1) \<Rightarrow>
          (case build_request E m p b q c1 of
             Inl e \<Rightarrow> ((None, Some e), c1, w1)
           | Inr (u, req) \<Rightarrow>
               (case transport E (sent w1) req of
                  (taken, Failed e) \<Rightarrow>
                    ((None, Some (ErrSendingRequest e)), c1,
                     w1\<lparr>clock := clock w1 + int taken, sent := sent w1 @ [req]\<rparr>)
                | (taken, Reply r) \<Rightarrow>
                    ((Some \<lparr> Body = resp_Body r, Status = resp_StatusCode r,
                             Headers = resp_Header r, Error = None,
                             ResponseTime = Since (clock w1) (clock w1 + int taken),
                             RequestURL = URL_String u \<rparr>, None), c1,
                     w1\<lparr>clock := clock w1 + int taken, sent := sent w1 @ [req]\<rparr>))))"
  by (simp add: Request_def Do_def Let_def err_of_def
           split: prod.splits option.splits sum.splits transport_result.splits)

lemma set_headers_map:
  "map_of (req_Header (set_headers c t b req)) =
     (\<lambda>k. if k = ''Content-Type'' \<and> b \<noteq> None then Some [''application/json'']
          else if k = ''Authorization'' then Some [GetAuthorizationHeader t]
          else if k = ''X-Authorization'' \<and> XAuthorization c \<noteq> [] then Some [XAuthorization c]
          else if k = ''Accept'' then Some [''application/json'']
          else map_of (req_Header req) k)"
  by (auto simp: set_headers_def Header_Set_def update_conv' Let_def acceptHeader_def
        contentTypeJSON_def xAuthorizationHeader_def authorizationHeader_def fun_eq_iff)

lemma http_NewRequest_Header:
  "http_NewRequest E m url body = Inr req \<Longrightarrow> req_Header req = []"
  by (auto simp: http_NewRequest_def Let_def split: if_splits sum.splits)

lemma build_request_Inr:
  "build_request E m p b q c = Inr (u, req) \<Longrightarrow>
   \<exists>t req0. Token c = Some t \<and> req_Header req0 = [] \<and> req = set_headers c t b req0"
  by (fastforce simp: build_request_def Let_def dest: http_NewRequest_Header
           split: sum.splits option.splits)

lemma build_request_headers:
  assumes "build_request E m p b q c = Inr (u, req)"
  shows "map_of (req_Header req) ''Accept'' = Some [''application/json'']
    \<and> (XAuthorization c \<noteq> [] \<longrightarrow>
         map_of (req_Header req) ''X-Authorization'' = Some [XAuthorization c])
    \<and> (XAuthorization c = [] \<longrightarrow> map_of (req_Header req) ''X-Authorization'' = None)
    \<and> (\<exists>t. Token c = Some t
         \<and> map_of (req_Header req) ''Authorization'' = Some [GetAuthorizationHeader t])
    \<and> (b \<noteq> None \<longrightarrow> map_of (req_Header req) ''Content-Type'' = Some [''application/json''])
    \<and> (b = None \<longrightarrow> map_of (req_Header req) ''Content-Type'' = None)"
proof -
  from build_request_Inr [OF assms] obtain t req0 where
    t: "Token c = Some t" and h: "req_Header req0 = []" and r: "req = set_headers c t b req0"
    by blast
  show ?thesis
    unfolding r set_headers_map using t h by (auto split: if_splits)
qed

lemma Request_no_Content_Type:
  "\<forall>req \<in> set (drop (length (sent (snd (snd (ensureValidToken E c w)))))
                    (sent (snd (snd (Request E m p None q c w))))).
     map_of (req_Header req) ''Content-Type'' = None"
proof (cases "build_request E m p None q (fst (snd (ensureValidToken E c w)))")
  case (Inl e)
  then have "sent (snd (snd (Request E m p None q c w))) = sent (snd (snd (ensureValidToken E c w)))"
    by (simp add: Request_sent)
  then show ?thesis by simp
next
  case (Inr ur)
  then obtain u req where
    r: "build_request E m p None q (fst (snd (ensureValidToken E c w))) = Inr (u, req)"
    by (cases ur) simp
  have h: "map_of (req_Header req) ''Content-Type'' = None"
    using build_request_headers [OF r] by simp
  have "sent (snd (snd (Request E m p None q c w))) =
          sent (snd (snd (ensureValidToken E c w)))
          @ (if fst (ensureValidToken E c w) = None then [req] else [])"
    by (simp add: Request_sent r)
  then show ?thesis using h by simp
qed

lemma example_build_post:
  "build_request (example_env example_token_reply) ''POST'' ''/widgets''
     (Some (JSONBody (Inr ''{}''))) [] example_xauth_client =
     Inr (example_URL ''/widgets'',
          \<lparr>req_Method = ''POST'', req_URL = example_URL ''/widgets'',
            req_Header = [(''Accept'', [''application/json'']), (''X-Authorization'', [''xa'']),
                          (''Authorization'', [''Bearer T0'']),
                          (''Content-Type'', [''application/json''])],
            req_Body = Some ''{}''\<rparr>)"
  by code_simp

lemma example_ensure_fresh:
  "sent (snd (snd (ensureValidToken (example_env example_token_reply) example_client example_world)))
     = [token_request (example_env example_token_reply) example_client False (example_URL ''/token'')]"
  by code_simp

lemma example_get_sent:
  "sent (snd (snd (Get (example_env example_token_reply) ''/widgets'' [] example_client example_world)))
     = [token_request (example_env example_token_reply) example_client False (example_URL ''/token''),
        \<lparr>req_Method = ''GET'', req_URL = example_URL ''/widgets'',
          req_Header = [(''Accept'', [''application/json'']), (''Authorization'', [''Bearer T''])],
          req_Body = None\<rparr>]"
  by code_simp

text \<open>
  C7. A request that reaches the header-setting step, that is one that
  \<^verbatim>\<open>build_request\<close> returns, carries \<^verbatim>\<open>Accept: application/json\<close>; the header
  \<^verbatim>\<open>X-Authorization\<close> with the configured value exactly when that value is not empty;
  \<^verbatim>\<open>Authorization\<close> with the authorization-header value of the token the client holds
  at that step; and \<^verbatim>\<open>Content-Type: application/json\<close> exactly when a body was given.
  This request is the one \<^verbatim>\<open>Request\<close> sends after its token step, and what \<^verbatim>\<open>Get\<close>
  and \<^verbatim>\<open>Delete\<close> send after the token step never carries \<^verbatim>\<open>Content-Type\<close>.
\<close>

theorem Request_headers:
  "(build_request E m p b q c = Inr (u, req) \<longrightarrow>
      map_of (req_Header req) ''Accept'' = Some [''application/json'']
    \<and> (XAuthorization c \<noteq> [] \<longrightarrow>
         map_of (req_Header req) ''X-Authorization'' = Some [XAuthorization c])
    \<and> (XAuthorization c = [] \<longrightarrow> map_of (req_Header req) ''X-Authorization'' = None)
    \<and> (\<exists>t. Token c = Some t
         \<and> map_of (req_Header req) ''Authorization'' = Some [GetAuthorizationHeader t])
    \<and> (b \<noteq> None \<longrightarrow> map_of (req_Header req) ''Content-Type'' = Some [''application/json''])
    \<and> (b = None \<longrightarrow> map_of (req_Header req) ''Content-Type'' = None))
   \<and> sent (snd (snd (Request E m p b q c w))) =
       sent (snd (snd (ensureValidToken E c w)))
       @ (if fst (ensureValidToken E c w) = None
          then (case build_request E m p b q (fst (snd (ensureValidToken E c w))) of
                  Inl err \<Rightarrow> [] | Inr (u, req) \<Rightarrow> [req])
          else [])
   \<and> (\<forall>req \<in> set (drop (length (sent (snd (snd (ensureValidToken E c w)))))
                      (sent (snd (snd (Get E p q c w))))).
        map_of (req_Header req) ''Content-Type'' = None)
   \<and> (\<forall>req \<in> set (drop (length (sent (snd (snd (ensureValidToken E c w)))))
                      (sent (snd (snd (Delete E p c w))))).
        map_of (req_Header req) ''Content-Type'' = None)"
proof (intro conjI)
  show "build_request E m p b q c = Inr (u, req) \<longrightarrow>
      map_of (req_Header req) ''Accept'' = Some [''application/json'']
    \<and> (XAuthorization c \<noteq> [] \<longrightarrow>
         map_of (req_Header req) ''X-Authorization'' = Some [XAuthorization c])
    \<and> (XAuthorization c = [] \<longrightarrow> map_of (req_Header req) ''X-Authorization'' = None)
    \<and> (\<exists>t. Token c = Some t
         \<and> map_of (req_Header req) ''Authorization'' = Some [GetAuthorizationHeader t])
    \<and> (b \<noteq> None \<longrightarrow> map_of (req_Header req) ''Content-Type'' = Some [''application/json''])
    \<and> (b = None \<longrightarrow> map_of (req_Header req) ''Content-Type'' = None)"
    by (rule impI) (rule build_request_headers)
  show "sent (snd (snd (Request E m p b q c w))) =
       sent (snd (snd (ensureValidToken E c w)))
       @ (if fst (ensureValidToken E c w) = None
          then (case build_request E m p b q (fst (snd (ensureValidToken E c w))) of
                  Inl err \<Rightarrow> [] | Inr (u, req) \<Rightarrow> [req])
          else [])"
    by (rule Request_sent)
  show "\<forall>req \<in> set (drop (length (sent (snd (snd (ensureValidToken E c w)))))
                      (sent (snd (snd (Get E p q c w))))).
        map_of (req_Header req) ''Content-Type'' = None"
    unfolding Get_def by (rule Request_no_Content_Type)
  show "\<forall>req \<in> set (drop (length (sent (snd (snd (ensureValidToken E c w)))))
                      (sent (snd (snd (Delete E p c w))))).
        map_of (req_Header req) ''Content-Type'' = None"
    unfolding Delete_def by (rule Request_no_Content_Type)
qed

theorem Request_headers_witness:
  "map_of [(''Accept'', [''application/json'']), (''X-Authorization'', [''xa'']),
           (''Authorization'', [''Bearer T0'']), (''Content-Type'', [''application/json''])]
     ''X-Authorization'' = Some [XAuthorization example_xauth_client]
   \<and> map_of (req_Header (last (sent (snd (snd
         (Get (example_env example_token_reply) ''/widgets'' [] example_client example_world))))))
       ''Content-Type'' = None"
proof -
  let ?E = "example_env example_token_reply"
  have x: "XAuthorization example_xauth_client \<noteq> []"
    by (simp add: example_xauth_client_def)
  note post = Request_headers
      [of ?E "''POST''" "''/widgets''" "Some (JSONBody (Inr ''{}''))" "[]" example_xauth_client
          _ _ example_world, THEN conjunct1, rule_format, OF example_build_post]
  note get = Request_headers
      [of ?E "''GET''" "''/widgets''" None "[]" example_client _ _ example_world,
       THEN conjunct2, THEN conjunct2, THEN conjunct1]
  from post x get show ?thesis
    by (simp add: example_ensure_fresh example_get_sent)
qed

subsection \<open>What a request returns\<close>

lemma Since_elapsed: "int taken < 2 ^ 63 \<Longrightarrow> sint (Since t (t + int taken)) = int taken"
proof -
  assume a: "int taken < 2 ^ 63"
  then have "max (- (2 ^ 63)) (min (2 ^ 63 - 1) (t + int taken - t)) = int taken"
    by simp
  then have "Since t (t + int taken) = (of_int (int taken) :: Duration)"
    by (simp only: Since_def)
  moreover have "sint (of_int (int taken) :: Duration) = signed_take_bit 63 (int taken)"
    by (simp only: signed_of_int) simp
  moreover have "signed_take_bit 63 (int taken) = int taken"
    using a by (simp add: signed_take_bit_int_eq_self)
  ultimately show ?thesis by simp
qed

lemma build_request_steps:
  "build_request E m p b q c =
     (case url_Parse E (BaseURL c) of
        Inl e \<Rightarrow> Inl (ErrParsingBaseURL e)
      | Inr u0 \<Rightarrow>
          (case serialize b of
             Inl e \<Rightarrow> Inl (ErrMarshalingRequestBody e)
           | Inr body \<Rightarrow>
               (case http_NewRequest E m (URL_String (target_URL E u0 p q)) body of
                  Inl e \<Rightarrow> Inl (ErrCreatingRequest e)
                | Inr req0 \<Rightarrow>
                    (case Token c of
                       None \<Rightarrow> Inl NilPointerDereference
                     | Some t \<Rightarrow> Inr (target_URL E u0 p q, set_headers c t b req0)))))"
  by (simp add: build_request_def Let_def split: sum.splits option.splits)

lemma http_NewRequest_URL:
  "http_NewRequest E m url body = Inr req \<Longrightarrow>
   \<exists>u. url_Parse E url = Inr u \<and> req_URL req = u\<lparr>Host := removeEmptyPort (Host u)\<rparr>"
  by (auto simp: http_NewRequest_def Let_def split: if_splits sum.splits)

lemma set_headers_URL: "req_URL (set_headers c t b req) = req_URL req"
  by (simp add: set_headers_def Let_def)

lemma build_request_URL:
  "build_request E m p b q c = Inr (v, req) \<Longrightarrow>
   \<exists>u. url_Parse E (URL_String v) = Inr u \<and> req_URL req = u\<lparr>Host := removeEmptyPort (Host u)\<rparr>"
  by (auto simp: build_request_steps set_headers_URL dest: http_NewRequest_URL
           split: sum.splits option.splits)

lemma Request_exactly_one:
  "(fst (fst (Request E m p b q c w)) \<noteq> None \<and> snd (fst (Request E m p b q c w)) = None)
   \<or> (fst (fst (Request E m p b q c w)) = None \<and> snd (fst (Request E m p b q c w)) \<noteq> None)"
  by (simp add: Request_eq
        split: prod.splits option.splits sum.splits transport_result.splits)

lemma Request_token_failed:
  "fst (ensureValidToken E c w) = Some e \<Longrightarrow>
   fst (Request E m p b q c w) = (None, Some (ErrEnsuringValidToken e))"
  by (auto simp: Request_eq split: prod.splits)

lemma Request_build_failed:
  "ensureValidToken E c w = (None, c1, w1) \<Longrightarrow> build_request E m p b q c1 = Inl e \<Longrightarrow>
   fst (Request E m p b q c w) = (None, Some e)"
  by (simp add: Request_eq)

lemma Request_transport_failed:
  "ensureValidToken E c w = (None, c1, w1) \<Longrightarrow> build_request E m p b q c1 = Inr (v, req) \<Longrightarrow>
   transport E (sent w1) req = (taken, Failed e) \<Longrightarrow>
   fst (Request E m p b q c w) = (None, Some (ErrSendingRequest e))"
  by (simp add: Request_eq)

lemma Request_replied:
  "ensureValidToken E c w = (None, c1, w1) \<Longrightarrow> build_request E m p b q c1 = Inr (v, req) \<Longrightarrow>
   transport E (sent w1) req = (taken, Reply r) \<Longrightarrow>
   Request E m p b q c w =
     ((Some \<lparr> Body = resp_Body r, Status = resp_StatusCode r, Headers = resp_Header r,
              Error = None, ResponseTime = Since (clock w1) (clock w1 + int taken),
              RequestURL = URL_String v \<rparr>, None), c1,
      w1\<lparr>clock := clock w1 + int taken, sent := sent w1 @ [req]\<rparr>)"
  by (simp add: Request_eq)

lemma example_ensure:
  "ensureValidToken (example_env example_token_reply) example_client example_world =
     (None,
      example_client\<lparr>Token := Some \<lparr>Value = ''T'', ExpiresIn = 3600, TokenType = ''Bearer'',
                                    RefreshToken = ''R'', ExpireTime = 3600000000105\<rparr>\<rparr>,
      \<lparr>clock = 105,
        sent = [token_request (example_env example_token_reply) example_client False
                  (example_URL ''/token'')]\<rparr>)"
  by code_simp

lemma example_ensure_failed:
  "fst (ensureValidToken (example_env (Failed ''timeout'')) example_client example_world)
     = Some (ErrTokenGeneration ''timeout'')"
  by code_simp

lemma example_parse_base:
  "url_Parse (example_env a) ''http://api.example.com'' = Inr (example_URL [])"
  by (simp add: example_env_def) code_simp

lemma example_new_request:
  "http_NewRequest (example_env example_token_reply) ''GET'' ''http://api.example.com/broken'' None
     = Inr \<lparr>req_Method = ''GET'', req_URL = example_URL ''/broken'', req_Header = [],
             req_Body = None\<rparr>"
  "http_NewRequest (example_env example_token_reply) ''GET'' ''http://api.example.com/down'' None
     = Inr \<lparr>req_Method = ''GET'', req_URL = example_URL ''/down'', req_Header = [],
             req_Body = None\<rparr>"
  by code_simp+

lemma example_target_string:
  "URL_String (target_URL (example_env example_token_reply) (example_URL []) ''/broken'' [])
     = ''http://api.example.com/broken''"
  "URL_String (target_URL (example_env example_token_reply) (example_URL []) ''/down'' [])
     = ''http://api.example.com/down''"
  by code_simp+

lemma example_transport_target:
  "transport (example_env a) before (set_headers c t b
       \<lparr>req_Method = m, req_URL = example_URL ''/broken'', req_Header = [], req_Body = body\<rparr>)
     = (7, Reply \<lparr>resp_StatusCode = 500, resp_Header = [], resp_Body = ''{message:failure}''\<rparr>)"
  "transport (example_env a) before (set_headers c t b
       \<lparr>req_Method = m, req_URL = example_URL ''/down'', req_Header = [], req_Body = body\<rparr>)
     = (7, Failed ''connection reset'')"
  by (simp_all add: example_env_def set_headers_def Let_def example_URL_def)

text \<open>
  A base URL with an empty port: the response reports the resolved URL as it is printed,
  and the request goes to the host without the colon.
\<close>

lemma example_empty_port:
  "removeEmptyPort ''api.example.com:'' = ''api.example.com''"
  "removeEmptyPort ''api.example.com:8080'' = ''api.example.com:8080''"
  "removeEmptyPort ''[::1]:'' = ''[::1]''"
  "removeEmptyPort ''[::1]'' = ''[::1]''"
  "map_option RequestURL (fst (fst (Request (example_env example_token_reply) ''GET'' ''/widgets''
       None [] (example_valid_client\<lparr>BaseURL := ''http://api.example.com:''\<rparr>) example_world)))
     = Some ''http://api.example.com:/widgets''"
  "URL_String (req_URL (last (sent (snd (snd (Request (example_env example_token_reply) ''GET''
       ''/widgets'' None [] (example_valid_client\<lparr>BaseURL := ''http://api.example.com:''\<rparr>)
       example_world)))))) = ''http://api.example.com/widgets''"
  by code_simp+

lemma build_request_Inl:
  "build_request E m p b q c = Inl e \<Longrightarrow> Token c \<noteq> None \<Longrightarrow>
     (\<exists>s. e = ErrParsingBaseURL s \<and> url_Parse E (BaseURL c) = Inl s)
   \<or> (\<exists>s u0. e = ErrMarshalingRequestBody s \<and> url_Parse E (BaseURL c) = Inr u0
          \<and> serialize b = Inl s)
   \<or> (\<exists>s u0 body. e = ErrCreatingRequest s \<and> url_Parse E (BaseURL c) = Inr u0
          \<and> serialize b = Inr body
          \<and> http_NewRequest E m (URL_String (target_URL E u0 p q)) body = Inl s)"
  by (auto simp: build_request_steps split: sum.splits option.splits)

text \<open>
  C8. Of the pair that \<^verbatim>\<open>Request\<close> returns exactly one component is not nil. What
  is returned follows the steps of the call. If the token step fails with \<open>e\<close>, the
  result is no response and the error of the token step wrapping \<open>e\<close>. After a token
  step that succeeds, leaving the client \<open>c1\<close> and the world \<open>w1\<close>: if the base
  URL does not parse, no response and the error of parsing the base URL; if the body does
  not serialise, no response and the error of marshaling; if \<^verbatim>\<open>http.NewRequest\<close>
  refuses the method or the resolved URL, no response and the error of creating the
  request; otherwise a token is held, and if the transport fails, no response and the
  error of sending the request, while for every reply of the transport, whatever its
  status code, the result is no error and the response that carries the body, the status
  code and the headers of that reply, the time the exchange took and the string of the
  resolved URL, with a nil \<open>Error\<close>. The request that went out is the one built from
  that string: its URL is what the string parses to, the host without an empty port.
  Conversely a response returned comes from a reply of the transport in this way, and
  an error returned is one of the five, each with its cause (and never the nil
  dereference of the model).
\<close>

theorem Request_result:
  "((fst (fst (Request E m p b q c w)) \<noteq> None \<and> snd (fst (Request E m p b q c w)) = None)
      \<or> (fst (fst (Request E m p b q c w)) = None \<and> snd (fst (Request E m p b q c w)) \<noteq> None))
   \<and> (fst (ensureValidToken E c w) = Some e \<longrightarrow>
        fst (Request E m p b q c w) = (None, Some (ErrEnsuringValidToken e)))
   \<and> (ensureValidToken E c w = (None, c1, w1) \<and> url_Parse E (BaseURL c1) = Inl s \<longrightarrow>
        fst (Request E m p b q c w) = (None, Some (ErrParsingBaseURL s)))
   \<and> (ensureValidToken E c w = (None, c1, w1) \<and> url_Parse E (BaseURL c1) = Inr u0
        \<and> serialize b = Inl s \<longrightarrow>
        fst (Request E m p b q c w) = (None, Some (ErrMarshalingRequestBody s)))
   \<and> (ensureValidToken E c w = (None, c1, w1) \<and> url_Parse E (BaseURL c1) = Inr u0
        \<and> serialize b = Inr body
        \<and> http_NewRequest E m (URL_String (target_URL E u0 p q)) body = Inl s \<longrightarrow>
        fst (Request E m p b q c w) = (None, Some (ErrCreatingRequest s)))
   \<and> (ensureValidToken E c w = (None, c1, w1) \<longrightarrow> Token c1 \<noteq> None)
   \<and> (ensureValidToken E c w = (None, c1, w1) \<and> url_Parse E (BaseURL c1) = Inr u0
        \<and> serialize b = Inr body
        \<and> http_NewRequest E m (URL_String (target_URL E u0 p q)) body = Inr req0
        \<and> Token c1 = Some t
        \<and> transport E (sent w1) (set_headers c1 t b req0) = (taken, Failed s) \<longrightarrow>
        fst (Request E m p b q c w) = (None, Some (ErrSendingRequest s)))
   \<and> (ensureValidToken E c w = (None, c1, w1) \<and> url_Parse E (BaseURL c1) = Inr u0
        \<and> serialize b = Inr body
        \<and> http_NewRequest E m (URL_String (target_URL E u0 p q)) body = Inr req0
        \<and> Token c1 = Some t
        \<and> transport E (sent w1) (set_headers c1 t b req0) = (taken, Reply r) \<longrightarrow>
        fst (Request E m p b q c w) =
          (Some \<lparr> Body = resp_Body r, Status = resp_StatusCode r, Headers = resp_Header r,
                   Error = None, ResponseTime = Since (clock w1) (clock w1 + int taken),
                   RequestURL = URL_String (target_URL E u0 p q) \<rparr>, None)
        \<and> (int taken < 2 ^ 63 \<longrightarrow> sint (Since (clock w1) (clock w1 + int taken)) = int taken)
        \<and> sent (snd (snd (Request E m p b q c w))) = sent w1 @ [set_headers c1 t b req0]
        \<and> (\<exists>u. url_Parse E (URL_String (target_URL E u0 p q)) = Inr u
              \<and> req_URL (set_headers c1 t b req0) = u\<lparr>Host := removeEmptyPort (Host u)\<rparr>))
   \<and> (\<forall>resp. fst (fst (Request E m p b q c w)) = Some resp \<longrightarrow>
         Error resp = None
       \<and> (\<exists>c1 w1 v req taken r.
             ensureValidToken E c w = (None, c1, w1)
           \<and> build_request E m p b q c1 = Inr (v, req)
           \<and> transport E (sent w1) req = (taken, Reply r)
           \<and> Body resp = resp_Body r
           \<and> Status resp = resp_StatusCode r
           \<and> Headers resp = resp_Header r
           \<and> ResponseTime resp = Since (clock w1) (clock w1 + int taken)
           \<and> RequestURL resp = URL_String v
           \<and> sent (snd (snd (Request E m p b q c w))) = sent w1 @ [req]))
   \<and> (\<forall>err. snd (fst (Request E m p b q c w)) = Some err \<longrightarrow>
         (\<exists>e'. err = ErrEnsuringValidToken e' \<and> fst (ensureValidToken E c w) = Some e')
       \<or> (\<exists>c1 w1. ensureValidToken E c w = (None, c1, w1)
            \<and> ((\<exists>s. err = ErrParsingBaseURL s \<and> url_Parse E (BaseURL c1) = Inl s)
               \<or> (\<exists>s u0. err = ErrMarshalingRequestBody s \<and> url_Parse E (BaseURL c1) = Inr u0
                      \<and> serialize b = Inl s)
               \<or> (\<exists>s u0 body. err = ErrCreatingRequest s \<and> url_Parse E (BaseURL c1) = Inr u0
                      \<and> serialize b = Inr body
                      \<and> http_NewRequest E m (URL_String (target_URL E u0 p q)) body = Inl s)
               \<or> (\<exists>s v req taken. err = ErrSendingRequest s
                      \<and> build_request E m p b q c1 = Inr (v, req)
                      \<and> transport E (sent w1) req = (taken, Failed s)))))"
proof -
  let ?R = "Request E m p b q c w"
  let ?resp = "\<forall>resp. fst (fst ?R) = Some resp \<longrightarrow>
         Error resp = None
       \<and> (\<exists>c1 w1 v req taken r.
             ensureValidToken E c w = (None, c1, w1)
           \<and> build_request E m p b q c1 = Inr (v, req)
           \<and> transport E (sent w1) req = (taken, Reply r)
           \<and> Body resp = resp_Body r
           \<and> Status resp = resp_StatusCode r
           \<and> Headers resp = resp_Header r
           \<and> ResponseTime resp = Since (clock w1) (clock w1 + int taken)
           \<and> RequestURL resp = URL_String v
           \<and> sent (snd (snd ?R)) = sent w1 @ [req])"
  let ?cause = "\<lambda>err c1 w1.
                 (\<exists>s. err = ErrParsingBaseURL s \<and> url_Parse E (BaseURL c1) = Inl s)
               \<or> (\<exists>s u0. err = ErrMarshalingRequestBody s \<and> url_Parse E (BaseURL c1) = Inr u0
                      \<and> serialize b = Inl s)
               \<or> (\<exists>s u0 body. err = ErrCreatingRequest s \<and> url_Parse E (BaseURL c1) = Inr u0
                      \<and> serialize b = Inr body
                      \<and> http_NewRequest E m (URL_String (target_URL E u0 p q)) body = Inl s)
               \<or> (\<exists>s v req taken. err = ErrSendingRequest s
                      \<and> build_request E m p b q c1 = Inr (v, req)
                      \<and> transport E (sent w1) req = (taken, Failed s))"
  let ?err = "\<forall>err. snd (fst ?R) = Some err \<longrightarrow>
         (\<exists>e'. err = ErrEnsuringValidToken e' \<and> fst (ensureValidToken E c w) = Some e')
       \<or> (\<exists>c1 w1. ensureValidToken E c w = (None, c1, w1) \<and> ?cause err c1 w1)"
  have tok: "Token c1 \<noteq> None" if "ensureValidToken E c w = (None, c1, w1)" for c1 w1
    using ensureValidToken_Token [of E c w] that by simp
  have built: "build_request E m p b q c1 = Inr (target_URL E u0 p q, set_headers c1 t b req0)"
    if "url_Parse E (BaseURL c1) = Inr u0" "serialize b = Inr body"
      "http_NewRequest E m (URL_String (target_URL E u0 p q)) body = Inr req0"
      "Token c1 = Some t"
    using that by (simp add: build_request_steps)
  have a1: "(fst (fst ?R) \<noteq> None \<and> snd (fst ?R) = None)
      \<or> (fst (fst ?R) = None \<and> snd (fst ?R) \<noteq> None)"
    by (rule Request_exactly_one)
  have a2: "fst (ensureValidToken E c w) = Some e \<longrightarrow>
        fst ?R = (None, Some (ErrEnsuringValidToken e))"
    by (rule impI) (rule Request_token_failed)
  have a3: "ensureValidToken E c w = (None, c1, w1) \<and> url_Parse E (BaseURL c1) = Inl s \<longrightarrow>
        fst ?R = (None, Some (ErrParsingBaseURL s))"
  proof (intro impI, elim conjE)
    assume h: "ensureValidToken E c w = (None, c1, w1)" "url_Parse E (BaseURL c1) = Inl s"
    have "build_request E m p b q c1 = Inl (ErrParsingBaseURL s)"
      using h(2) by (simp add: build_request_steps)
    with h(1) show "fst ?R = (None, Some (ErrParsingBaseURL s))"
      by (rule Request_build_failed)
  qed
  have a4: "ensureValidToken E c w = (None, c1, w1) \<and> url_Parse E (BaseURL c1) = Inr u0
        \<and> serialize b = Inl s \<longrightarrow>
        fst ?R = (None, Some (ErrMarshalingRequestBody s))"
  proof (intro impI, elim conjE)
    assume h: "ensureValidToken E c w = (None, c1, w1)" "url_Parse E (BaseURL c1) = Inr u0"
      "serialize b = Inl s"
    have "build_request E m p b q c1 = Inl (ErrMarshalingRequestBody s)"
      using h(2,3) by (simp add: build_request_steps)
    with h(1) show "fst ?R = (None, Some (ErrMarshalingRequestBody s))"
      by (rule Request_build_failed)
  qed
  have a5: "ensureValidToken E c w = (None, c1, w1) \<and> url_Parse E (BaseURL c1) = Inr u0
        \<and> serialize b = Inr body
        \<and> http_NewRequest E m (URL_String (target_URL E u0 p q)) body = Inl s \<longrightarrow>
        fst ?R = (None, Some (ErrCreatingRequest s))"
  proof (intro impI, elim conjE)
    assume h: "ensureValidToken E c w = (None, c1, w1)" "url_Parse E (BaseURL c1) = Inr u0"
      "serialize b = Inr body"
      "http_NewRequest E m (URL_String (target_URL E u0 p q)) body = Inl s"
    have "build_request E m p b q c1 = Inl (ErrCreatingRequest s)"
      using h(2,3,4) by (simp add: build_request_steps)
    with h(1) show "fst ?R = (None, Some (ErrCreatingRequest s))"
      by (rule Request_build_failed)
  qed
  have a6: "ensureValidToken E c w = (None, c1, w1) \<longrightarrow> Token c1 \<noteq> None"
    by (rule impI) (rule tok)
  have a7: "ensureValidToken E c w = (None, c1, w1) \<and> url_Parse E (BaseURL c1) = Inr u0
        \<and> serialize b = Inr body
        \<and> http_NewRequest E m (URL_String (target_URL E u0 p q)) body = Inr req0
        \<and> Token c1 = Some t
        \<and> transport E (sent w1) (set_headers c1 t b req0) = (taken, Failed s) \<longrightarrow>
        fst ?R = (None, Some (ErrSendingRequest s))"
  proof (intro impI, elim conjE)
    assume h: "ensureValidToken E c w = (None, c1, w1)" "url_Parse E (BaseURL c1) = Inr u0"
      "serialize b = Inr body"
      "http_NewRequest E m (URL_String (target_URL E u0 p q)) body = Inr req0"
      "Token c1 = Some t"
      "transport E (sent w1) (set_headers c1 t b req0) = (taken, Failed s)"
    from h(1) built [OF h(2-5)] h(6)
    show "fst ?R = (None, Some (ErrSendingRequest s))"
      by (rule Request_transport_failed)
  qed
  have a8: "ensureValidToken E c w = (None, c1, w1) \<and> url_Parse E (BaseURL c1) = Inr u0
        \<and> serialize b = Inr body
        \<and> http_NewRequest E m (URL_String (target_URL E u0 p q)) body = Inr req0
        \<and> Token c1 = Some t
        \<and> transport E (sent w1) (set_headers c1 t b req0) = (taken, Reply r) \<longrightarrow>
        fst ?R =
          (Some \<lparr> Body = resp_Body r, Status = resp_StatusCode r, Headers = resp_Header r,
                   Error = None, ResponseTime = Since (clock w1) (clock w1 + int taken),
                   RequestURL = URL_String (target_URL E u0 p q) \<rparr>, None)
        \<and> (int taken < 2 ^ 63 \<longrightarrow> sint (Since (clock w1) (clock w1 + int taken)) = int taken)
        \<and> sent (snd (snd ?R)) = sent w1 @ [set_headers c1 t b req0]
        \<and> (\<exists>u. url_Parse E (URL_String (target_URL E u0 p q)) = Inr u
              \<and> req_URL (set_headers c1 t b req0) = u\<lparr>Host := removeEmptyPort (Host u)\<rparr>)"
  proof (intro impI, elim conjE)
    assume h: "ensureValidToken E c w = (None, c1, w1)" "url_Parse E (BaseURL c1) = Inr u0"
      "serialize b = Inr body"
      "http_NewRequest E m (URL_String (target_URL E u0 p q)) body = Inr req0"
      "Token c1 = Some t"
      "transport E (sent w1) (set_headers c1 t b req0) = (taken, Reply r)"
    note R = Request_replied [OF h(1) built [OF h(2-5)] h(6)]
    have "int taken < 2 ^ 63 \<longrightarrow> sint (Since (clock w1) (clock w1 + int taken)) = int taken"
      by (rule impI) (rule Since_elapsed)
    moreover note build_request_URL [OF built [OF h(2-5)]]
    ultimately show "fst ?R =
          (Some \<lparr> Body = resp_Body r, Status = resp_StatusCode r, Headers = resp_Header r,
                   Error = None, ResponseTime = Since (clock w1) (clock w1 + int taken),
                   RequestURL = URL_String (target_URL E u0 p q) \<rparr>, None)
        \<and> (int taken < 2 ^ 63 \<longrightarrow> sint (Since (clock w1) (clock w1 + int taken)) = int taken)
        \<and> sent (snd (snd ?R)) = sent w1 @ [set_headers c1 t b req0]
        \<and> (\<exists>u. url_Parse E (URL_String (target_URL E u0 p q)) = Inr u
              \<and> req_URL (set_headers c1 t b req0) = u\<lparr>Host := removeEmptyPort (Host u)\<rparr>)"
      unfolding R by simp
  qed
  obtain e0 d1 x1 where ev: "ensureValidToken E c w = (e0, d1, x1)"
    by (cases "ensureValidToken E c w") auto
  have conv: "?resp \<and> ?err"
  proof (cases e0)
    case (Some e')
    then have "fst ?R = (None, Some (ErrEnsuringValidToken e'))"
      using Request_token_failed [of E c w e' m p b q] ev by simp
    then show ?thesis using ev Some by simp
  next
    case None
    note ev' = ev [unfolded None]
    show ?thesis
    proof (cases "build_request E m p b q d1")
      case (Inl err)
      have R: "fst ?R = (None, Some err)"
        using ev' Inl by (rule Request_build_failed)
      from build_request_Inl [OF Inl tok [OF ev']] have "?cause err d1 x1"
        by blast
      with ev' have "\<exists>c1 w1. ensureValidToken E c w = (None, c1, w1) \<and> ?cause err c1 w1"
        by (intro exI [of _ d1] exI [of _ x1] conjI)
      then show ?thesis
        unfolding R by simp
    next
      case (Inr vr)
      then obtain v req where br: "build_request E m p b q d1 = Inr (v, req)"
        by (cases vr) simp
      obtain taken result where tr: "transport E (sent x1) req = (taken, result)"
        by (cases "transport E (sent x1) req") auto
      show ?thesis
      proof (cases result)
        case (Failed s)
        have R: "fst ?R = (None, Some (ErrSendingRequest s))"
          using ev' br tr [unfolded Failed] by (rule Request_transport_failed)
        have "\<exists>s' v req taken. ErrSendingRequest s = ErrSendingRequest s'
                      \<and> build_request E m p b q d1 = Inr (v, req)
                      \<and> transport E (sent x1) req = (taken, Failed s')"
          using br tr [unfolded Failed]
          by (intro exI [of _ s] exI [of _ v] exI [of _ req] exI [of _ taken] conjI refl)
        then have "?cause (ErrSendingRequest s) d1 x1"
          by (intro disjI2)
        with ev' have "\<exists>c1 w1. ensureValidToken E c w = (None, c1, w1)
            \<and> ?cause (ErrSendingRequest s) c1 w1"
          by (intro exI [of _ d1] exI [of _ x1] conjI)
        then show ?thesis
          unfolding R by simp
      next
        case (Reply r)
        note R = Request_replied [OF ev' br tr [unfolded Reply]]
        have "\<exists>c1 w1 v' req' taken' r'.
             ensureValidToken E c w = (None, c1, w1)
           \<and> build_request E m p b q c1 = Inr (v', req')
           \<and> transport E (sent w1) req' = (taken', Reply r')
           \<and> resp_Body r = resp_Body r'
           \<and> resp_StatusCode r = resp_StatusCode r'
           \<and> resp_Header r = resp_Header r'
           \<and> Since (clock x1) (clock x1 + int taken) = Since (clock w1) (clock w1 + int taken')
           \<and> URL_String v = URL_String v'
           \<and> sent x1 @ [req] = sent w1 @ [req']"
          using ev' br tr Reply
          by (intro exI [of _ d1] exI [of _ x1] exI [of _ v] exI [of _ req] exI [of _ taken]
                exI [of _ r]) simp
        then show ?thesis unfolding R by simp
      qed
    qed
  qed
  from conv have a9: ?resp and a10: ?err
    by (rule conjunct1, rule conjunct2)
  from a1 a2 a3 a4 a5 a6 a7 a8 a9 a10 show ?thesis
    by (intro conjI)
qed

theorem Request_result_witness:
  "fst (Request (example_env example_token_reply) ''GET'' ''/broken'' None [] example_client
          example_world) =
     (Some \<lparr>Body = ''{message:failure}'', Status = 500, Headers = [], Error = None,
             ResponseTime = 7, RequestURL = ''http://api.example.com/broken''\<rparr>, None)
   \<and> fst (Request (example_env example_token_reply) ''GET'' ''/down'' None [] example_client
          example_world) = (None, Some (ErrSendingRequest ''connection reset''))
   \<and> fst (Request (example_env (Failed ''timeout'')) ''GET'' ''/widgets'' None [] example_client
          example_world) = (None, Some (ErrEnsuringValidToken (ErrTokenGeneration ''timeout'')))"
proof -
  let ?E = "example_env example_token_reply"
  let ?t = "\<lparr>Value = ''T'', ExpiresIn = 3600, TokenType = ''Bearer'', RefreshToken = ''R'',
             ExpireTime = 3600000000105\<rparr>"
  let ?c1 = "example_client\<lparr>Token := Some ?t\<rparr>"
  let ?w1 = "\<lparr>clock = 105, sent = [token_request ?E example_client False (example_URL ''/token'')]\<rparr>"
  have b: "url_Parse ?E (BaseURL example_client) = Inr (example_URL [])"
    by (simp add: example_client_def example_parse_base)
  have s: "serialize None = Inr None"
    by (simp add: serialize_def)
  have d: "Since 105 112 = 7"
    by (simp add: Since_def)
  note replied = Request_result
      [where E = ?E and m = "''GET''" and p = "''/broken''" and b = None and q = "[]"
         and c = example_client and w = example_world and ?c1.0 = ?c1 and ?w1.0 = ?w1
         and ?u0.0 = "example_URL []" and body = None
         and ?req0.0 = "\<lparr>req_Method = ''GET'', req_URL = example_URL ''/broken'',
                          req_Header = [], req_Body = None\<rparr>"
         and t = ?t and taken = 7
         and r = "\<lparr>resp_StatusCode = 500, resp_Header = [], resp_Body = ''{message:failure}''\<rparr>",
       THEN conjunct2, THEN conjunct2, THEN conjunct2, THEN conjunct2, THEN conjunct2,
       THEN conjunct2, THEN conjunct2, THEN conjunct1, rule_format, THEN conjunct1]
  note down = Request_result
      [where E = ?E and m = "''GET''" and p = "''/down''" and b = None and q = "[]"
         and c = example_client and w = example_world and ?c1.0 = ?c1 and ?w1.0 = ?w1
         and s = "''connection reset''" and ?u0.0 = "example_URL []" and body = None
         and ?req0.0 = "\<lparr>req_Method = ''GET'', req_URL = example_URL ''/down'',
                          req_Header = [], req_Body = None\<rparr>"
         and t = ?t and taken = 7,
       THEN conjunct2, THEN conjunct2, THEN conjunct2, THEN conjunct2, THEN conjunct2,
       THEN conjunct2, THEN conjunct1, rule_format]
  note failed = Request_result
      [where E = "example_env (Failed ''timeout'')" and m = "''GET''" and p = "''/widgets''"
         and b = None and q = "[]" and c = example_client and w = example_world
         and e = "ErrTokenGeneration ''timeout''",
       THEN conjunct2, THEN conjunct1, rule_format, OF example_ensure_failed]
  from replied down failed show ?thesis
    by (simp add: example_ensure b s d example_new_request example_transport_target
          example_target_string)
qed

subsection \<open>The base URL\<close>

lemma doubled_sep_append:
  "doubled_sep (xs @ ys) \<longleftrightarrow>
     doubled_sep xs \<or> doubled_sep ys \<or> (xs \<noteq> [] \<and> ys \<noteq> [] \<and> last xs = sep \<and> hd ys = sep)"
proof (induction xs rule: doubled_sep.induct)
  case 1
  then show ?case by simp
next
  case (2 a)
  then show ?case by (cases ys) auto
next
  case (3 a b r)
  then show ?case by auto
qed

lemma TrimRight_decompose:
  "\<exists>k. s = strings_TrimRight s ''/'' @ replicate k CHR ''/''"
proof -
  let ?P = "\<lambda>c. c \<in> set ''/''"
  have "rev s = takeWhile ?P (rev s) @ dropWhile ?P (rev s)"
    by simp
  then have "s = rev (dropWhile ?P (rev s)) @ rev (takeWhile ?P (rev s))"
    by (metis rev_append rev_rev_ident)
  moreover have "rev (takeWhile ?P (rev s)) = replicate (length (takeWhile ?P (rev s))) CHR ''/''"
    by (rule replicate_eqI) (auto dest: set_takeWhileD)
  ultimately show ?thesis
    unfolding strings_TrimRight_def by metis
qed

lemma TrimRight_last:
  "strings_TrimRight s ''/'' \<noteq> [] \<Longrightarrow> last (strings_TrimRight s ''/'') \<noteq> CHR ''/''"
proof -
  let ?P = "\<lambda>c. c \<in> set ''/''"
  assume "strings_TrimRight s ''/'' \<noteq> []"
  then have n: "dropWhile ?P (rev s) \<noteq> []"
    by (simp add: strings_TrimRight_def)
  then have "\<not> ?P (hd (dropWhile ?P (rev s)))"
    by (rule hd_dropWhile)
  then show ?thesis
    using n by (simp add: strings_TrimRight_def last_rev)
qed

lemma ensureValidToken_BaseURL:
  "BaseURL (fst (snd (ensureValidToken E c w))) = BaseURL c"
  by (simp add: ensureValidToken_def GenerateToken_def generateOrRefreshToken_BaseURL)

lemma Request_BaseURL:
  "BaseURL (fst (snd (Request E m p b q c w))) = BaseURL c"
  by (simp add: Request_client ensureValidToken_BaseURL)

lemma example_new:
  "fst (NewRapidClient [(''RAPID_BASE_URL'', ''http://api.example.com///''), (''RAPID_KEY'', ''k''),
          (''RAPID_SECRET'', ''s'')] example_world) = (Some example_client, None)"
  by code_simp

text \<open>
  C10. The base URL of a client made by \<^verbatim>\<open>NewRapidClient\<close> is the configured value
  without its trailing \<^verbatim>\<open>/\<close> characters, all of them, and no operation of the client
  changes the base URL. So the token URL, the base URL followed by \<^verbatim>\<open>/token\<close>, has no
  doubled separator where the two meet: it has two separators in a row only where the
  trimmed configured value has. The one request of an exchange is built from this
  string: its URL is what the string parses to, the host without an empty port.
\<close>

theorem BaseURL_trimmed:
  "(fst (NewRapidClient environ w) = (Some c, None) \<longrightarrow>
      BaseURL c = strings_TrimRight (os_Getenv environ ''RAPID_BASE_URL'') ''/''
    \<and> (\<exists>k. os_Getenv environ ''RAPID_BASE_URL'' = BaseURL c @ replicate k CHR ''/'')
    \<and> (BaseURL c \<noteq> [] \<longrightarrow> last (BaseURL c) \<noteq> CHR ''/'')
    \<and> (doubled_sep (BaseURL c @ ''/token'') \<longleftrightarrow> doubled_sep (BaseURL c)))
   \<and> sent (snd (snd (generateOrRefreshToken E r c' w))) =
       sent w @ (case url_Parse E (BaseURL c' @ ''/token'') of
                   Inl err \<Rightarrow> [] | Inr u \<Rightarrow> [token_request E c' r u])
   \<and> req_URL (token_request E c' r u) = u\<lparr>Host := removeEmptyPort (Host u)\<rparr>
   \<and> BaseURL (fst (snd (generateOrRefreshToken E r c' w))) = BaseURL c'
   \<and> BaseURL (fst (snd (GenerateToken E c' w))) = BaseURL c'
   \<and> BaseURL (fst (snd (RefreshToken_op E c' w))) = BaseURL c'
   \<and> BaseURL (fst (snd (ensureValidToken E c' w))) = BaseURL c'
   \<and> BaseURL (fst (snd (Request E m p b q c' w))) = BaseURL c'
   \<and> BaseURL (fst (snd (Get E p q c' w))) = BaseURL c'
   \<and> BaseURL (fst (snd (Post E p jb c' w))) = BaseURL c'
   \<and> BaseURL (fst (snd (Put E p jb c' w))) = BaseURL c'
   \<and> BaseURL (fst (snd (Delete E p c' w))) = BaseURL c'"
proof -
  have "BaseURL c = strings_TrimRight (os_Getenv environ ''RAPID_BASE_URL'') ''/''"
    if "fst (NewRapidClient environ w) = (Some c, None)"
    using that by (auto simp: NewRapidClient_def Let_def split: if_splits)
  moreover have "doubled_sep (B @ ''/token'') \<longleftrightarrow> doubled_sep B"
    if "B \<noteq> [] \<longrightarrow> last B \<noteq> CHR ''/''" for B
    using that by (auto simp: doubled_sep_append sep_def)
  moreover have "sent (snd (snd (generateOrRefreshToken E r c' w))) =
       sent w @ (case url_Parse E (BaseURL c' @ ''/token'') of
                   Inl err \<Rightarrow> [] | Inr u \<Rightarrow> [token_request E c' r u])"
    by (simp add: generateOrRefreshToken_world Do_sent split: sum.splits)
  ultimately show ?thesis
    using TrimRight_decompose [of "os_Getenv environ ''RAPID_BASE_URL''"]
          TrimRight_last [of "os_Getenv environ ''RAPID_BASE_URL''"]
    by (simp add: token_request_def generateOrRefreshToken_BaseURL GenerateToken_def
          RefreshToken_op_def ensureValidToken_BaseURL Request_BaseURL Get_def Post_def Put_def
          Delete_def)
qed

lemma example_token_URL:
  "URL_String ((example_URL ''/token'')\<lparr>Host := removeEmptyPort (Host (example_URL ''/token''))\<rparr>)
     = ''http://api.example.com/token''"
  by code_simp

theorem BaseURL_trimmed_witness:
  "BaseURL example_client = strings_TrimRight ''http://api.example.com///'' ''/''
   \<and> sent (snd (snd (generateOrRefreshToken (example_env example_token_reply) False example_client
        example_world)))
       = [token_request (example_env example_token_reply) example_client False
            (example_URL ''/token'')]
   \<and> URL_String (req_URL (token_request (example_env example_token_reply) example_client False
        (example_URL ''/token''))) = ''http://api.example.com/token''
   \<and> BaseURL (fst (snd (Request (example_env example_token_reply) ''GET'' ''/widgets'' None []
        example_client example_world))) = ''http://api.example.com''"
proof -
  note new = BaseURL_trimmed
      [where environ = "[(''RAPID_BASE_URL'', ''http://api.example.com///''), (''RAPID_KEY'', ''k''),
          (''RAPID_SECRET'', ''s'')]" and w = example_world and c = example_client
          and E = "example_env example_token_reply" and r = False and c' = example_client
          and u = "example_URL ''/token''" and m = "''GET''" and p = "''/widgets''"
          and b = None and q = "[]", THEN conjunct1, rule_format, OF example_new]
  note kept = BaseURL_trimmed
      [where environ = "[(''RAPID_BASE_URL'', ''http://api.example.com///''), (''RAPID_KEY'', ''k''),
          (''RAPID_SECRET'', ''s'')]" and w = example_world and c = example_client
          and E = "example_env example_token_reply" and r = False and c' = example_client
          and u = "example_URL ''/token''" and m = "''GET''" and p = "''/widgets''"
          and b = None and q = "[]", THEN conjunct2]
  have b: "BaseURL example_client = ''http://api.example.com''"
    by (simp add: example_client_def)
  have s: "sent example_world = []"
    by (simp add: example_world_def)
  have p: "url_Parse (example_env example_token_reply) ''http://api.example.com/token''
             = Inr (example_URL ''/token'')"
    using example_parse_token [of example_token_reply] by (simp add: b)
  from new have "BaseURL example_client = strings_TrimRight ''http://api.example.com///'' ''/''"
    by (simp add: os_Getenv_def)
  moreover from kept have "sent (snd (snd (generateOrRefreshToken (example_env example_token_reply)
        False example_client example_world)))
       = [token_request (example_env example_token_reply) example_client False
            (example_URL ''/token'')]"
    and "URL_String (req_URL (token_request (example_env example_token_reply) example_client False
        (example_URL ''/token''))) = ''http://api.example.com/token''"
    and "BaseURL (fst (snd (Request (example_env example_token_reply) ''GET'' ''/widgets'' None []
        example_client example_world))) = ''http://api.example.com''"
    by (simp_all add: b s p example_token_URL)
  ultimately show ?thesis by simp
qed

text \<open>
  That the token URL never has a doubled separator, as the claim states it, fails for a
  configured value with one inside its path: only trailing separators are trimmed.
\<close>

theorem BaseURL_trimmed_counterexample:
  "fst (fst (NewRapidClient [(''RAPID_BASE_URL'', ''http://api.example.com//v1/''),
          (''RAPID_KEY'', ''k''), (''RAPID_SECRET'', ''s'')] example_world))
     = Some (example_client\<lparr>BaseURL := ''http://api.example.com//v1''\<rparr>)
   \<and> BaseURL (example_client\<lparr>BaseURL := ''http://api.example.com//v1''\<rparr>) @ ''/token''
       = ''http://api.example.com//v1/token''
   \<and> doubled_sep (drop 7 ''http://api.example.com//v1/token'')
   \<and> URL_String (req_URL (last (sent (snd (snd (generateOrRefreshToken
         (example_env example_token_reply) False
         (example_client\<lparr>BaseURL := ''http://api.example.com//v1''\<rparr>) example_world))))))
       = ''http://api.example.com//v1/token''
   \<and> doubled_sep (Path (req_URL (last (sent (snd (snd (generateOrRefreshToken
         (example_env example_token_reply) False
         (example_client\<lparr>BaseURL := ''http://api.example.com//v1''\<rparr>) example_world)))))))"
  by code_simp

subsection \<open>The loop of \<^verbatim>\<open>Clean\<close>, element by element\<close>

lemma dot_neq_sep [simp]: "dot \<noteq> sep" "sep \<noteq> dot"
  by (simp_all add: dot_def sep_def)

lemma clean_loop_sep: "clean_loop r (sep # cs) st = clean_loop r cs st"
  by simp

lemma clean_loop_dot:
  "cs = [] \<or> hd cs = sep \<Longrightarrow> clean_loop r (dot # cs) st = clean_loop r cs st"
  by simp

lemma clean_loop_dotdot:
  "cs = [] \<or> hd cs = sep \<Longrightarrow>
   clean_loop r (dot # dot # cs) st = clean_loop r cs (dotdot_elem r st)"
  by simp

lemma clean_loop_real:
  "c \<noteq> sep \<Longrightarrow> \<not> (c = dot \<and> (cs = [] \<or> hd cs = sep)) \<Longrightarrow>
   \<not> (c = dot \<and> hd cs = dot \<and> (tl cs = [] \<or> hd (tl cs) = sep)) \<Longrightarrow>
   clean_loop r (c # cs) st =
     clean_loop r (dropWhile (\<lambda>x. x \<noteq> sep) cs)
       (real_elem r (c # takeWhile (\<lambda>x. x \<noteq> sep) cs) st)"
  by (subst clean_loop.simps) (simp only: if_False if_True simp_thms)

declare clean_loop.simps(2) [simp del]

lemma clean_loop_seps: "clean_loop r (replicate n sep @ cs) st = clean_loop r cs st"
  by (induction n) (simp_all add: clean_loop_sep)

lemma takeWhile_before_sep:
  "takeWhile (\<lambda>x. x \<noteq> sep) (xs @ sep # ys) = takeWhile (\<lambda>x. x \<noteq> sep) xs"
  by (induction xs) auto

lemma dropWhile_before_sep:
  "dropWhile (\<lambda>x. x \<noteq> sep) (xs @ sep # ys) = dropWhile (\<lambda>x. x \<noteq> sep) xs @ sep # ys"
  by (induction xs) auto

lemma clean_loop_append:
  "clean_loop r (x @ sep # y) st = clean_loop r y (clean_loop r x st)"
proof (induction r x st rule: clean_loop.induct)
  case (1 rooted st)
  then show ?case by (simp add: clean_loop_sep)
next
  case (2 rooted c cs st)
  show ?case
  proof (cases "c = sep")
    case True
    then show ?thesis using 2(1) by (simp add: clean_loop_sep)
  next
    case ns: False
    show ?thesis
    proof (cases "c = dot \<and> (cs = [] \<or> hd cs = sep)")
      case True
      then have "cs @ sep # y = [] \<or> hd (cs @ sep # y) = sep"
        by (cases cs) auto
      then show ?thesis
        using 2(2) [OF ns True] True by (simp add: clean_loop_dot)
    next
      case nd: False
      show ?thesis
      proof (cases "c = dot \<and> hd cs = dot \<and> (tl cs = [] \<or> hd (tl cs) = sep)")
        case True
        with nd obtain ds where c: "cs = dot # ds" and ds: "ds = [] \<or> hd ds = sep"
          by (cases cs) auto
        have "ds @ sep # y = [] \<or> hd (ds @ sep # y) = sep"
          using ds by (cases ds) auto
        then show ?thesis
          using 2(3) [OF ns nd True] True c ds by (simp add: clean_loop_dotdot)
      next
        case nr: False
        have a: "\<not> (c = dot \<and> (cs @ sep # y = [] \<or> hd (cs @ sep # y) = sep))"
          using nd by (cases cs) auto
        have b: "\<not> (c = dot \<and> hd (cs @ sep # y) = dot
            \<and> (tl (cs @ sep # y) = [] \<or> hd (tl (cs @ sep # y)) = sep))"
        proof (cases cs)
          case Nil
          then show ?thesis using nd by auto
        next
          case (Cons d ds)
          then show ?thesis using nr by (cases ds) auto
        qed
        have "clean_loop rooted ((c # cs) @ sep # y) st =
                clean_loop rooted (dropWhile (\<lambda>x. x \<noteq> sep) (cs @ sep # y))
                  (real_elem rooted (c # takeWhile (\<lambda>x. x \<noteq> sep) (cs @ sep # y)) st)"
          using clean_loop_real [OF ns a b] by simp
        also have "\<dots> = clean_loop rooted y
                (clean_loop rooted (dropWhile (\<lambda>x. x \<noteq> sep) cs)
                  (real_elem rooted (c # takeWhile (\<lambda>x. x \<noteq> sep) cs) st))"
          using 2(4) [OF ns nd nr] by (simp add: takeWhile_before_sep dropWhile_before_sep)
        also have "\<dots> = clean_loop rooted y (clean_loop rooted (c # cs) st)"
          using clean_loop_real [OF ns nd nr] by simp
        finally show ?thesis .
      qed
    qed
  qed
qed

lemma clean_loop_trailing: "clean_loop r (x @ replicate n sep) st = clean_loop r x st"
proof (cases n)
  case 0
  then show ?thesis by simp
next
  case (Suc k)
  have "clean_loop r (x @ replicate n sep) st = clean_loop r (x @ sep # replicate k sep) st"
    using Suc by simp
  also have "\<dots> = clean_loop r (replicate k sep) (clean_loop r x st)"
    by (rule clean_loop_append)
  also have "\<dots> = clean_loop r x st"
    using clean_loop_seps [of r k "[]"] by simp
  finally show ?thesis .
qed

subsection \<open>Backtracking\<close>

lemma doubled_sep_take: "doubled_sep (take n xs) \<Longrightarrow> doubled_sep xs"
proof -
  assume "doubled_sep (take n xs)"
  then have "doubled_sep (take n xs @ drop n xs)"
    by (simp only: doubled_sep_append) simp
  then show ?thesis by simp
qed

lemma doubled_sep_nth:
  assumes "Suc i < length xs" "xs ! i = sep" "xs ! Suc i = sep"
  shows "doubled_sep xs"
proof -
  have "xs = take i xs @ xs ! i # xs ! Suc i # drop (Suc (Suc i)) xs"
    using assms(1) by (metis Cons_nth_drop_Suc Suc_lessD append_take_drop_id)
  then have "xs = take i xs @ sep # sep # drop (Suc (Suc i)) xs"
    using assms by simp
  moreover have "doubled_sep (take i xs @ sep # sep # drop (Suc (Suc i)) xs)"
    by (simp add: doubled_sep_append)
  ultimately show ?thesis by simp
qed

declare backtrack.simps [simp del]

lemma backtrack_bounds:
  "d \<le> w \<Longrightarrow> d \<le> backtrack out d w \<and> backtrack out d w \<le> w
     \<and> (backtrack out d w = d \<or> out ! backtrack out d w = sep)"
proof (induction out d w rule: backtrack.induct)
  case (1 out dotdot w)
  show ?case
  proof (cases "w > dotdot \<and> out ! w \<noteq> sep")
    case True
    then have "dotdot \<le> w - 1" by auto
    from 1(1) [OF True this] True have
      "dotdot \<le> backtrack out dotdot (w - 1) \<and> backtrack out dotdot (w - 1) \<le> w
        \<and> (backtrack out dotdot (w - 1) = dotdot \<or> out ! backtrack out dotdot (w - 1) = sep)"
      by auto
    moreover have "backtrack out dotdot w = backtrack out dotdot (w - 1)"
      using True by (subst backtrack.simps) simp
    ultimately show ?thesis by simp
  next
    case False
    then have "backtrack out dotdot w = w"
      by (subst backtrack.simps) auto
    then show ?thesis using False 1(2) by auto
  qed
qed

lemma backtrack_Cons:
  "backtrack (a # out) (Suc d) (Suc w) = Suc (backtrack out d w)"
proof (induction out d w rule: backtrack.induct)
  case (1 out dotdot w)
  show ?case
  proof (cases "w > dotdot \<and> out ! w \<noteq> sep")
    case True
    then obtain v where v: "w = Suc v" by (cases w) auto
    have "backtrack (a # out) (Suc dotdot) (Suc w) = backtrack (a # out) (Suc dotdot) w"
      using True by (subst backtrack.simps) simp
    also have "\<dots> = Suc (backtrack out dotdot v)"
      using 1 [OF True] v by simp
    also have "backtrack out dotdot v = backtrack out dotdot w"
      using True v by (subst (2) backtrack.simps) simp
    finally show ?thesis .
  next
    case False
    have "backtrack (a # out) (Suc dotdot) (Suc w) = Suc w"
      using False by (subst backtrack.simps) auto
    moreover have "backtrack out dotdot w = w"
      using False by (subst backtrack.simps) auto
    ultimately show ?thesis by simp
  qed
qed

subsection \<open>The invariant of the loop\<close>

lemma dotdot_elem_back:
  assumes inv: "clean_inv r (out, d)" and lt: "d < length out"
  shows "clean_inv r (dotdot_elem r (out, d))"
proof -
  define w where "w = backtrack out d (length out - 1)"
  have le: "d \<le> length out - 1" using lt by simp
  from backtrack_bounds [OF le, of out]
  have w: "d \<le> w" "w \<le> length out - 1" "w = d \<or> out ! w = sep"
    by (simp_all add: w_def)
  have wl: "w < length out" using w lt by simp
  have eq: "dotdot_elem r (out, d) = (take w out, d)"
    using lt by (simp add: dotdot_elem_def w_def)
  from inv have nd: "\<not> doubled_sep out"
    and rt: "r \<longrightarrow> d = 1 \<and> take 1 out = [sep]"
    and un: "\<not> r \<longrightarrow> (out \<noteq> [] \<longrightarrow> hd out \<noteq> sep)
            \<and> (d > 0 \<longrightarrow> 2 \<le> d \<and> take 2 out = [dot, dot]
                        \<and> (length out > 2 \<longrightarrow> out ! 2 = sep) \<and> out ! (d - 1) \<noteq> sep)"
    by (simp_all add: clean_inv_def)
  have 1: "\<not> doubled_sep (take w out)"
    using nd doubled_sep_take by blast
  have 2: "d \<le> length (take w out)"
    using w wl by simp
  have 3: "r \<and> take w out = [sep]" if a: "take w out \<noteq> []" "last (take w out) = sep"
  proof -
    from a(1) have w0: "w > 0" by auto
    have "last (take w out) = out ! (w - 1)"
      using a(1) w0 wl by (simp add: last_conv_nth min_def)
    with a(2) have l: "out ! (w - 1) = sep" by simp
    show ?thesis
    proof (cases "w = d")
      case True
      show ?thesis
      proof (cases r)
        case True
        with rt \<open>w = d\<close> show ?thesis by simp
      next
        case False
        with un w0 \<open>w = d\<close> l show ?thesis by simp
      qed
    next
      case False
      with w have "out ! w = sep" by simp
      with l w0 wl have "doubled_sep out"
        using doubled_sep_nth [of "w - 1" out] by simp
      with nd show ?thesis by simp
    qed
  qed
  have 4: "d = 1 \<and> take 1 (take w out) = [sep]" if r
    using that rt w by (simp add: min_def)
  have 5: "hd (take w out) \<noteq> sep" if "\<not> r" "take w out \<noteq> []"
  proof -
    from that(2) have "w > 0" "out \<noteq> []" by auto
    then have "hd (take w out) = hd out" by (cases out) (auto simp: take_Cons')
    with un that \<open>out \<noteq> []\<close> show ?thesis by simp
  qed
  have 6: "2 \<le> d \<and> take 2 (take w out) = [dot, dot]
        \<and> (length (take w out) > 2 \<longrightarrow> take w out ! 2 = sep) \<and> take w out ! (d - 1) \<noteq> sep"
    if "\<not> r" "d > 0"
  proof -
    from un that have u: "2 \<le> d" "take 2 out = [dot, dot]"
      "length out > 2 \<longrightarrow> out ! 2 = sep" "out ! (d - 1) \<noteq> sep"
      by simp_all
    have "take 2 (take w out) = take 2 out"
      using u(1) w(1) by (simp add: min_def)
    moreover have "take w out ! 2 = out ! 2" if "length (take w out) > 2"
      using that by simp
    moreover have "take w out ! (d - 1) = out ! (d - 1)"
      using u(1) w(1) by simp
    ultimately show ?thesis
      using u wl by auto
  qed
  show ?thesis
    unfolding eq clean_inv_def using 1 2 3 4 5 6 by auto
qed


lemma doubled_sep_snoc_sep:
  "doubled_sep (out @ [sep]) \<longleftrightarrow> doubled_sep out \<or> (out \<noteq> [] \<and> last out = sep)"
  by (simp add: doubled_sep_append)

lemma doubled_sep_nosep: "sep \<notin> set e \<Longrightarrow> \<not> doubled_sep e"
  by (induction e rule: doubled_sep.induct) auto

lemma dotdot_elem_push:
  assumes inv: "clean_inv False (out, d)" and ge: "\<not> d < length out"
  shows "clean_inv False (dotdot_elem False (out, d))"
proof -
  from inv have dl: "d = length out"
    using ge by (simp add: clean_inv_def)
  from inv have nd: "\<not> doubled_sep out"
    and ls: "out \<noteq> [] \<longrightarrow> last out \<noteq> sep"
    and hd: "out \<noteq> [] \<longrightarrow> hd out \<noteq> sep"
    and un: "d > 0 \<longrightarrow> 2 \<le> d \<and> take 2 out = [dot, dot]
                        \<and> (length out > 2 \<longrightarrow> out ! 2 = sep)"
    by (auto simp: clean_inv_def)
  show ?thesis
  proof (cases "out = []")
    case True
    then have "dotdot_elem False (out, d) = ([dot, dot], 2)"
      using dl by (simp add: dotdot_elem_def)
    then show ?thesis
      by (simp add: clean_inv_def)
  next
    case False
    then have eq: "dotdot_elem False (out, d) = (out @ [sep, dot, dot], length out + 3)"
      using dl by (simp add: dotdot_elem_def Let_def)
    from False dl un have u: "2 \<le> length out" "take 2 out = [dot, dot]"
      "length out > 2 \<longrightarrow> out ! 2 = sep"
      by auto
    have 1: "\<not> doubled_sep (out @ [sep, dot, dot])"
      using nd ls False by (simp add: doubled_sep_append)
    have 2: "hd (out @ [sep, dot, dot]) \<noteq> sep"
      using hd False by simp
    have 3: "take 2 (out @ [sep, dot, dot]) = [dot, dot]"
      using u by simp
    have 4: "(out @ [sep, dot, dot]) ! 2 = sep"
      using u by (cases "length out = 2") (auto simp: nth_append)
    have 5: "(out @ [sep, dot, dot]) ! (length out + 3 - 1) \<noteq> sep"
      by (simp add: nth_append)
    show ?thesis
      unfolding eq clean_inv_def using 1 2 3 4 5 by simp
  qed
qed

lemma dotdot_elem_inv:
  assumes "clean_inv r (out, d)"
  shows "clean_inv r (dotdot_elem r (out, d))"
proof (cases "d < length out")
  case True
  with assms show ?thesis by (rule dotdot_elem_back)
next
  case False
  show ?thesis
  proof (cases r)
    case True
    then have "dotdot_elem r (out, d) = (out, d)"
      using False by (simp add: dotdot_elem_def)
    with assms show ?thesis by simp
  next
    case nr: False
    with assms False show ?thesis
      using dotdot_elem_push by simp
  qed
qed

lemma real_elem_inv:
  assumes inv: "clean_inv r (out, d)" and e: "e \<noteq> []" "sep \<notin> set e"
  shows "clean_inv r (real_elem r e (out, d))"
proof -
  define out' where
    "out' = (if (r \<and> length out \<noteq> 1) \<or> (\<not> r \<and> length out \<noteq> 0) then out @ [sep] else out)"
  have eq: "real_elem r e (out, d) = (out' @ e, d)"
    by (simp add: real_elem_def out'_def)
  from inv have nd: "\<not> doubled_sep out" and dl: "d \<le> length out"
    and ls: "out \<noteq> [] \<and> last out = sep \<longrightarrow> r \<and> out = [sep]"
    and rt: "r \<longrightarrow> d = 1 \<and> take 1 out = [sep]"
    and un: "\<not> r \<longrightarrow> (out \<noteq> [] \<longrightarrow> hd out \<noteq> sep)
            \<and> (d > 0 \<longrightarrow> 2 \<le> d \<and> take 2 out = [dot, dot]
                        \<and> (length out > 2 \<longrightarrow> out ! 2 = sep) \<and> out ! (d - 1) \<noteq> sep)"
    by (simp_all add: clean_inv_def)
  have he: "hd e \<noteq> sep" "last e \<noteq> sep"
    using e by (metis hd_in_set, metis last_in_set)
  have pre: "take (length out) out' = out" "length out \<le> length out'"
    by (simp_all add: out'_def)
  have 1: "\<not> doubled_sep out'"
    using nd ls by (auto simp: out'_def doubled_sep_snoc_sep)
  have 2: "\<not> doubled_sep (out' @ e)"
    using 1 he e doubled_sep_nosep [of e] by (simp add: doubled_sep_append)
  have 3: "last (out' @ e) \<noteq> sep"
    using he e by simp
  have 4: "take 1 (out' @ e) = [sep]" if r
    using that rt by (cases out) (auto simp: out'_def)
  have 5: "hd (out' @ e) \<noteq> sep" if "\<not> r"
    using that un he by (cases out) (auto simp: out'_def)
  have 6: "take 2 (out' @ e) = [dot, dot]
        \<and> (length (out' @ e) > 2 \<longrightarrow> (out' @ e) ! 2 = sep) \<and> (out' @ e) ! (d - 1) \<noteq> sep"
    if "\<not> r" "d > 0"
  proof -
    from un that have u: "2 \<le> d" "take 2 out = [dot, dot]"
      "length out > 2 \<longrightarrow> out ! 2 = sep" "out ! (d - 1) \<noteq> sep"
      by simp_all
    with dl have l2: "2 \<le> length out" by simp
    then have o': "out' = out @ [sep]"
      using that by (auto simp: out'_def)
    have "take 2 (out' @ e) = take 2 out"
      using l2 by (simp add: o')
    moreover have "(out' @ e) ! 2 = sep"
      using l2 u(3) by (cases "length out = 2") (auto simp: o' nth_append)
    moreover have "d - 1 < length out"
      using u(1) dl by arith
    then have "(out' @ e) ! (d - 1) = out ! (d - 1)"
      by (simp add: o' nth_append)
    ultimately show ?thesis using u by simp
  qed
  show ?thesis
    unfolding eq clean_inv_def using 2 3 4 5 6 dl pre rt un e by auto
qed

lemma clean_loop_inv:
  "clean_inv r st \<Longrightarrow> clean_inv r (clean_loop r x st)"
proof (induction r x st rule: clean_loop.induct)
  case (1 rooted st)
  then show ?case by simp
next
  case (2 rooted c cs st)
  obtain out d where st: "st = (out, d)" by (cases st)
  show ?case
  proof (cases "c = sep")
    case True
    then show ?thesis using 2(1) 2(5) by (simp add: clean_loop_sep)
  next
    case ns: False
    show ?thesis
    proof (cases "c = dot \<and> (cs = [] \<or> hd cs = sep)")
      case True
      then show ?thesis using 2(2) [OF ns True] 2(5) by (simp add: clean_loop_dot)
    next
      case nd: False
      show ?thesis
      proof (cases "c = dot \<and> hd cs = dot \<and> (tl cs = [] \<or> hd (tl cs) = sep)")
        case True
        with nd obtain ds where c: "cs = dot # ds" and ds: "ds = [] \<or> hd ds = sep"
          by (cases cs) auto
        have "clean_inv rooted (dotdot_elem rooted st)"
          using 2(5) dotdot_elem_inv st by simp
        from 2(3) [OF ns nd True this] show ?thesis
          using True c ds by (simp add: clean_loop_dotdot)
      next
        case nr: False
        have "clean_inv rooted (real_elem rooted (c # takeWhile (\<lambda>x. x \<noteq> sep) cs) st)"
          using 2(5) st ns real_elem_inv [of rooted out d "c # takeWhile (\<lambda>x. x \<noteq> sep) cs"]
          by (auto dest: set_takeWhileD)
        from 2(4) [OF ns nd nr this] show ?thesis
          using clean_loop_real [OF ns nd nr] by simp
      qed
    qed
  qed
qed

lemma elem_nosep: "c \<noteq> sep \<Longrightarrow> sep \<notin> set (c # takeWhile (\<lambda>x. x \<noteq> sep) cs)"
  by (auto dest: set_takeWhileD)

lemma clean_inv_init: "clean_inv True ([sep], 1)" "clean_inv False ([], 0)"
  by (simp_all add: clean_inv_def)

lemma Clean_unrooted:
  "p \<noteq> [] \<Longrightarrow> hd p \<noteq> sep \<Longrightarrow>
   Clean p = (if fst (clean_loop False p ([], 0)) = [] then [dot]
              else fst (clean_loop False p ([], 0)))"
  by (simp add: Clean_def Let_def)

lemma Clean_rooted_eq:
  "Clean (sep # p) = fst (clean_loop True p ([sep], 1))"
proof -
  have "clean_inv True (clean_loop True p ([sep], 1))"
    using clean_inv_init(1) by (rule clean_loop_inv)
  then have "fst (clean_loop True p ([sep], 1)) \<noteq> []"
    by (cases "clean_loop True p ([sep], 1)") (auto simp: clean_inv_def)
  then show ?thesis
    by (simp add: Clean_def Let_def)
qed

lemma Clean_no_doubled: "\<not> doubled_sep (Clean p)"
proof (cases "p = []")
  case True
  then show ?thesis by (simp add: Clean_def)
next
  case False
  define r where "r = (hd p = sep)"
  define st where "st = clean_loop r (if r then tl p else p) (if r then ([sep], 1) else ([], 0))"
  have "clean_inv r (if r then ([sep], 1) else ([], 0))"
    using clean_inv_init by simp
  then have "clean_inv r st"
    unfolding st_def by (rule clean_loop_inv)
  then have "\<not> doubled_sep (fst st)"
    by (cases st) (simp add: clean_inv_def)
  moreover have "Clean p = (if fst st = [] then [dot] else fst st)"
    using False by (simp add: Clean_def Let_def r_def st_def)
  ultimately show ?thesis by simp
qed

lemma Join_no_doubled: "\<not> doubled_sep (filepath_Join es)"
  by (induction es) (simp_all add: Clean_no_doubled)

lemma dotdot_elem_mono:
  "clean_inv r (out, d) \<Longrightarrow> d \<le> snd (dotdot_elem r (out, d))"
  by (auto simp: dotdot_elem_def clean_inv_def Let_def)

lemma clean_loop_mono:
  "clean_inv r st \<Longrightarrow> snd st \<le> snd (clean_loop r x st)"
proof (induction r x st rule: clean_loop.induct)
  case (1 rooted st)
  then show ?case by simp
next
  case (2 rooted c cs st)
  obtain out d where st: "st = (out, d)" by (cases st)
  show ?case
  proof (cases "c = sep")
    case True
    then show ?thesis using 2(1) 2(5) by (simp add: clean_loop_sep)
  next
    case ns: False
    show ?thesis
    proof (cases "c = dot \<and> (cs = [] \<or> hd cs = sep)")
      case True
      then show ?thesis using 2(2) [OF ns True] 2(5) by (simp add: clean_loop_dot)
    next
      case nd: False
      show ?thesis
      proof (cases "c = dot \<and> hd cs = dot \<and> (tl cs = [] \<or> hd (tl cs) = sep)")
        case True
        with nd obtain ds where c: "cs = dot # ds" and ds: "ds = [] \<or> hd ds = sep"
          by (cases cs) auto
        have i: "clean_inv rooted (dotdot_elem rooted st)"
          using 2(5) dotdot_elem_inv st by simp
        have "snd st \<le> snd (dotdot_elem rooted st)"
          using 2(5) st dotdot_elem_mono by simp
        with 2(3) [OF ns nd True i] show ?thesis
          using True c ds by (simp add: clean_loop_dotdot)
      next
        case nr: False
        have i: "clean_inv rooted (real_elem rooted (c # takeWhile (\<lambda>x. x \<noteq> sep) cs) st)"
          using 2(5) st ns real_elem_inv [of rooted out d "c # takeWhile (\<lambda>x. x \<noteq> sep) cs"]
          by (auto dest: set_takeWhileD)
        have "snd (real_elem rooted (c # takeWhile (\<lambda>x. x \<noteq> sep) cs) st) = snd st"
          by (simp add: st real_elem_def)
        with 2(4) [OF ns nd nr i] show ?thesis
          using clean_loop_real [OF ns nd nr] by simp
      qed
    qed
  qed
qed

text \<open>
  A run of the loop without a root that never has to keep a \<^verbatim>\<open>..\<close> is the run with
  the root, one separator further to the right.
\<close>

lemma clean_loop_rooted:
  "clean_inv False (out, 0) \<Longrightarrow> snd (clean_loop False x (out, 0)) = 0 \<Longrightarrow>
   clean_loop True x (sep # out, 1) = (sep # fst (clean_loop False x (out, 0)), 1)"
proof (induction x arbitrary: out rule: length_induct)
  case (1 x)
  note IH = 1(1) and inv = 1(2) and fin = 1(3)
  show ?case
  proof (cases x)
    case Nil
    then show ?thesis by simp
  next
    case (Cons c cs)
    have shorter: "length cs < length x" using Cons by simp
    show ?thesis
    proof (cases "c = sep")
      case True
      then show ?thesis
        using IH [rule_format, OF shorter inv] fin Cons by (simp add: clean_loop_sep)
    next
      case ns: False
      show ?thesis
      proof (cases "c = dot \<and> (cs = [] \<or> hd cs = sep)")
        case True
        then show ?thesis
          using IH [rule_format, OF shorter inv] fin Cons by (simp add: clean_loop_dot)
      next
        case nd: False
        show ?thesis
        proof (cases "c = dot \<and> hd cs = dot \<and> (tl cs = [] \<or> hd (tl cs) = sep)")
          case True
          with nd obtain ds where c: "cs = dot # ds" and ds: "ds = [] \<or> hd ds = sep"
            by (cases cs) auto
          have x: "x = dot # dot # ds" using Cons c True by simp
          have i: "clean_inv False (dotdot_elem False (out, 0))"
            using inv by (rule dotdot_elem_inv)
          have f: "snd (clean_loop False ds (dotdot_elem False (out, 0))) = 0"
            using fin x ds by (simp add: clean_loop_dotdot)
          have "snd (dotdot_elem False (out, 0)) \<le> 0"
            using clean_loop_mono [OF i, of ds] f by simp
          then have ne: "out \<noteq> []"
            by (auto simp: dotdot_elem_def)
          then have u: "dotdot_elem False (out, 0) = (take (backtrack out 0 (length out - 1)) out, 0)"
            by (simp add: dotdot_elem_def)
          have "backtrack (sep # out) (Suc 0) (Suc (length out - 1))
                  = Suc (backtrack out 0 (length out - 1))"
            by (rule backtrack_Cons)
          then have r: "dotdot_elem True (sep # out, 1)
                  = (sep # take (backtrack out 0 (length out - 1)) out, 1)"
            using ne by (simp add: dotdot_elem_def)
          have "length ds < length x" using x by simp
          from IH [rule_format, OF this] i f u
          have "clean_loop True ds (sep # take (backtrack out 0 (length out - 1)) out, 1) =
                  (sep # fst (clean_loop False ds (take (backtrack out 0 (length out - 1)) out, 0)), 1)"
            by simp
          then show ?thesis
            using x ds u r by (simp add: clean_loop_dotdot)
        next
          case nr: False
          let ?e = "c # takeWhile (\<lambda>x. x \<noteq> sep) cs"
          let ?rest = "dropWhile (\<lambda>x. x \<noteq> sep) cs"
          let ?out = "(if out \<noteq> [] then out @ [sep] else out) @ ?e"
          have u: "real_elem False ?e (out, 0) = (?out, 0)"
            by (simp add: real_elem_def)
          have r: "real_elem True ?e (sep # out, 1) = (sep # ?out, 1)"
            by (simp add: real_elem_def)
          have i: "clean_inv False (?out, 0)"
            using real_elem_inv [OF inv _ elem_nosep [OF ns], of cs] u by simp
          have f: "snd (clean_loop False ?rest (?out, 0)) = 0"
            using fin Cons clean_loop_real [OF ns nd nr, of False "(out, 0)"] u by simp
          have "length ?rest < length x"
            using Cons length_dropWhile_le [of "\<lambda>x. x \<noteq> sep" cs] by simp
          from IH [rule_format, OF this i f]
          show ?thesis
            using Cons clean_loop_real [OF ns nd nr, of False "(out, 0)"]
              clean_loop_real [OF ns nd nr, of True "(sep # out, 1)"] u r by simp
        qed
      qed
    qed
  qed
qed

subsection \<open>Separators repeated in the joined path\<close>

text \<open>Separators repeated between, before and after the elements do not change \<open>Clean\<close>.\<close>

lemma Clean_slashes:
  assumes "B \<noteq> []"
  shows "Clean (B @ replicate (Suc n) sep @ P @ replicate j sep) = Clean (B @ sep # P)"
proof -
  define r where "r = (hd B = sep)"
  define b where "b = (if r then tl B else B)"
  define st where "st = (if r then ([sep], 1 :: nat) else ([], 0))"
  have l: "clean_loop r (b @ replicate (Suc n) sep @ P @ replicate j sep) st
             = clean_loop r (b @ sep # P) st"
  proof -
    have "clean_loop r (b @ replicate (Suc n) sep @ P @ replicate j sep) st
            = clean_loop r (b @ sep # (replicate n sep @ P @ replicate j sep)) st"
      by simp
    also have "\<dots> = clean_loop r (replicate n sep @ P @ replicate j sep) (clean_loop r b st)"
      by (rule clean_loop_append)
    also have "\<dots> = clean_loop r (P @ replicate j sep) (clean_loop r b st)"
      by (rule clean_loop_seps)
    also have "\<dots> = clean_loop r P (clean_loop r b st)"
      by (rule clean_loop_trailing)
    also have "\<dots> = clean_loop r (b @ sep # P) st"
      by (rule clean_loop_append [symmetric])
    finally show ?thesis .
  qed
  have x: "Clean (B @ X) = (if fst (clean_loop r (b @ X) st) = [] then [dot]
                            else fst (clean_loop r (b @ X) st))" for X
    using assms by (cases B) (auto simp: Clean_def Let_def r_def b_def st_def)
  show ?thesis
    using x [of "replicate (Suc n) sep @ P @ replicate j sep"] x [of "sep # P"] l by simp
qed

lemma Join_base:
  assumes "B \<noteq> []"
  shows "filepath_Join [B @ replicate k sep, replicate i sep @ P @ replicate j sep]
           = Clean (B @ sep # P)"
proof -
  have "filepath_Join [B @ replicate k sep, replicate i sep @ P @ replicate j sep]
          = Clean ((B @ replicate k sep) @ [sep] @ replicate i sep @ P @ replicate j sep)"
    using assms by simp
  also have "(B @ replicate k sep) @ [sep] @ replicate i sep @ P @ replicate j sep
          = B @ replicate (Suc (k + i)) sep @ P @ replicate j sep"
    by (simp add: replicate_add replicate_append_same)
  also have "Clean \<dots> = Clean (B @ sep # P)"
    using assms by (rule Clean_slashes)
  finally show ?thesis .
qed

lemma Clean_rooted_slashes:
  "Clean (replicate (Suc n) sep @ P @ replicate j sep) = Clean (sep # P)"
proof -
  have "Clean (replicate (Suc n) sep @ P @ replicate j sep)
          = Clean (sep # replicate n sep @ P @ replicate j sep)"
    by simp
  also have "\<dots> = fst (clean_loop True (replicate n sep @ P @ replicate j sep) ([sep], 1))"
    by (rule Clean_rooted_eq)
  also have "\<dots> = fst (clean_loop True P ([sep], 1))"
    by (simp add: clean_loop_seps clean_loop_trailing)
  also have "\<dots> = Clean (sep # P)"
    by (rule Clean_rooted_eq [symmetric])
  finally show ?thesis .
qed

lemma Join_no_base:
  assumes "P \<noteq> []" "hd P \<noteq> sep"
  shows "filepath_Join [replicate k sep, replicate i sep @ P @ replicate j sep]
           = (if k = 0 \<and> i = 0 then Clean P else Clean (sep # P))"
proof (cases k)
  case (Suc k')
  have "filepath_Join [replicate k sep, replicate i sep @ P @ replicate j sep]
          = Clean (replicate k sep @ [sep] @ replicate i sep @ P @ replicate j sep)"
    using Suc by simp
  also have "replicate k sep @ [sep] @ replicate i sep @ P @ replicate j sep
          = replicate (Suc (k + i)) sep @ P @ replicate j sep"
    by (simp add: replicate_add replicate_append_same)
  also have "Clean \<dots> = Clean (sep # P)"
    by (rule Clean_rooted_slashes)
  finally show ?thesis using Suc by simp
next
  case 0
  show ?thesis
  proof (cases i)
    case (Suc i')
    have "filepath_Join [replicate k sep, replicate i sep @ P @ replicate j sep]
            = Clean (replicate (Suc i') sep @ P @ replicate j sep)"
      using 0 Suc by simp
    also have "\<dots> = Clean (sep # P)"
      by (rule Clean_rooted_slashes)
    finally show ?thesis using Suc by simp
  next
    case i0: 0
    have p: "P @ replicate j sep \<noteq> []" "hd (P @ replicate j sep) \<noteq> sep"
      using assms by simp_all
    have "filepath_Join [replicate k sep, replicate i sep @ P @ replicate j sep]
            = Clean (P @ replicate j sep)"
      using 0 i0 assms by simp
    also have "\<dots> = Clean P"
      by (simp add: Clean_unrooted [OF p] Clean_unrooted [OF assms] clean_loop_trailing)
    finally show ?thesis using 0 i0 by simp
  qed
qed

text \<open>
  A relative path that cleans to a name below the current directory cleans, with the
  root before it, to that name below the root.
\<close>

lemma Clean_below:
  assumes "P \<noteq> []" "hd P \<noteq> sep" "Clean P \<noteq> [dot]" "Clean P \<noteq> [dot, dot]"
    and "take 3 (Clean P) \<noteq> [dot, dot, sep]"
  shows "Clean (sep # P) = sep # Clean P \<and> Clean P \<noteq> [] \<and> hd (Clean P) \<noteq> sep"
proof -
  obtain out d where st: "clean_loop False P ([], 0) = (out, d)"
    by (cases "clean_loop False P ([], 0)")
  have inv: "clean_inv False (out, d)"
    using clean_loop_inv [OF clean_inv_init(2), of P] st by simp
  have c: "Clean P = (if out = [] then [dot] else out)"
    using Clean_unrooted [OF assms(1,2)] st by simp
  with assms(3) have ne: "out \<noteq> []" and co: "Clean P = out"
    by auto
  have d0: "d = 0"
  proof (rule ccontr)
    assume "d \<noteq> 0"
    with inv have t: "take 2 out = [dot, dot]" and s: "length out > 2 \<longrightarrow> out ! 2 = sep"
      by (auto simp: clean_inv_def)
    show False
    proof (cases "length out > 2")
      case True
      then have "take 3 out = take 2 out @ [out ! 2]"
        by (simp add: take_Suc_conv_app_nth numeral_3_eq_3 numeral_2_eq_2)
      with t s True assms(5) co show False by simp
    next
      case False
      with t have "out = [dot, dot]"
        by (metis take_all_iff not_less)
      with assms(4) co show False by simp
    qed
  qed
  have "clean_loop True P (sep # [], 1) = (sep # fst (clean_loop False P ([], 0)), 1)"
    using clean_inv_init(2) st d0 by (intro clean_loop_rooted) simp_all
  then have "Clean (sep # P) = sep # out"
    using st by (simp add: Clean_rooted_eq)
  moreover have "hd out \<noteq> sep"
    using inv ne by (simp add: clean_inv_def)
  ultimately show ?thesis
    using co ne by simp
qed

subsection \<open>Separators in the printed URL\<close>

lemma escape_char_sep: "escape_char encodePath sep = [sep]"
  by (simp add: escape_char_def shouldEscape_def isAlnum_def sep_def)

lemma upperhex_nosep: "n < 16 \<Longrightarrow> upperhex n \<noteq> sep"
proof -
  assume "n < 16"
  then have "upperhex n \<in> set ''0123456789ABCDEF''"
    unfolding upperhex_def by (intro nth_mem) simp
  then show ?thesis by (auto simp: sep_def)
qed

lemma escape_char_nosep:
  assumes "c \<noteq> sep"
  shows "sep \<notin> set (escape_char mode c) \<and> escape_char mode c \<noteq> []"
proof -
  have "(of_char c :: nat) div 16 < 16"
    by (rule less_mult_imp_div_less) simp
  then have h1: "upperhex (of_char c div 16) \<noteq> sep"
    by (rule upperhex_nosep)
  have "(of_char c :: nat) mod 16 < 16"
    by simp
  then have h2: "upperhex (of_char c mod 16) \<noteq> sep"
    by (rule upperhex_nosep)
  have k: "CHR ''+'' \<noteq> sep" "CHR ''%'' \<noteq> sep"
    by (simp_all add: sep_def)
  show ?thesis
    using assms h1 h2 k by (simp add: escape_char_def)
qed

lemma escape_Cons: "escape (c # s) mode = escape_char mode c @ escape s mode"
  by (simp add: escape_def)

lemma escape_Nil: "escape [] mode = []"
  by (simp add: escape_def)

lemma escape_hd:
  "s \<noteq> [] \<Longrightarrow> escape s encodePath \<noteq> [] \<and> (hd (escape s encodePath) = sep \<longleftrightarrow> hd s = sep)"
proof (cases s)
  case Nil
  assume "s \<noteq> []"
  with Nil show ?thesis by simp
next
  case (Cons c cs)
  show ?thesis
  proof (cases "c = sep")
    case True
    then show ?thesis using Cons by (simp add: escape_Cons escape_char_sep)
  next
    case False
    from escape_char_nosep [OF False, of encodePath]
    have "escape_char encodePath c \<noteq> []" "hd (escape_char encodePath c) \<noteq> sep"
      by (auto simp: hd_in_set dest: hd_in_set)
    then show ?thesis using Cons False by (simp add: escape_Cons)
  qed
qed

lemma escape_last:
  "last (escape_char encodePath c) = sep \<longleftrightarrow> c = sep"
proof (cases "c = sep")
  case True
  then show ?thesis by (simp add: escape_char_sep)
next
  case False
  from escape_char_nosep [OF False, of encodePath]
  have "escape_char encodePath c \<noteq> []" "sep \<notin> set (escape_char encodePath c)"
    by simp_all
  then have "last (escape_char encodePath c) \<noteq> sep"
    by (metis last_in_set)
  then show ?thesis using False by simp
qed

lemma escape_char_no_doubled: "\<not> doubled_sep (escape_char encodePath c)"
proof (cases "c = sep")
  case True
  then show ?thesis by (simp add: escape_char_sep)
next
  case False
  then show ?thesis
    using escape_char_nosep [OF False, of encodePath] doubled_sep_nosep by blast
qed

lemma escape_no_doubled:
  "\<not> doubled_sep s \<Longrightarrow> \<not> doubled_sep (escape s encodePath)"
proof (induction s rule: doubled_sep.induct)
  case (3 a b r)
  then have nd: "\<not> (a = sep \<and> b = sep)" and IH: "\<not> doubled_sep (escape (b # r) encodePath)"
    by auto
  have "escape (b # r) encodePath \<noteq> []"
    "hd (escape (b # r) encodePath) = sep \<longleftrightarrow> b = sep"
    using escape_hd [of "b # r"] by simp_all
  with nd IH escape_char_no_doubled [of a] escape_last [of a] show ?case
    by (simp add: escape_Cons [of a] doubled_sep_append)
next
  case 1
  then show ?case by (simp add: escape_Nil)
next
  case (2 v)
  then show ?case
    using escape_char_no_doubled [of v] by (simp add: escape_Cons escape_Nil)
qed

lemma ishex_nosep: "ishex c \<Longrightarrow> c \<noteq> sep"
  by (auto simp: ishex_def sep_def)

lemma unescape_doubled:
  "unescape r = Some p \<Longrightarrow> doubled_sep r \<Longrightarrow> doubled_sep p"
proof (induction r arbitrary: p rule: unescape.induct)
  case 1
  then show ?case by simp
next
  case (2 c cs)
  show ?case
  proof (cases "c = CHR ''%''")
    case True
    with 2(3) obtain h1 h2 rest p' where
      cs: "cs = h1 # h2 # rest" and h: "ishex h1" "ishex h2"
      and p': "unescape rest = Some p'" and p: "p = char_of (unhex h1 * 16 + unhex h2) # p'"
      by (auto split: list.splits if_splits)
    have "c \<noteq> sep" using True by (simp add: sep_def)
    with 2(4) cs h ishex_nosep have "doubled_sep rest"
      by (cases rest) auto
    with 2(1) [OF True cs refl _ p'] h have "doubled_sep p'" by simp
    then show ?thesis using p by (cases p') auto
  next
    case False
    with 2(3) obtain p' where p': "unescape cs = Some p'" and p: "p = c # p'"
      by auto
    show ?thesis
    proof (cases "doubled_sep cs")
      case True
      with 2(2) [OF False p'] have "doubled_sep p'" .
      then show ?thesis using p by (cases p') auto
    next
      case nd: False
      with 2(4) obtain ds where cs: "cs = sep # ds" and c: "c = sep"
        by (cases cs) auto
      have "CHR ''%'' \<noteq> sep" by (simp add: sep_def)
      with p' cs obtain p'' where "p' = sep # p''"
        by auto
      then show ?thesis using p c by simp
    qed
  qed
qed

lemma EscapedPath_no_doubled:
  assumes "\<not> doubled_sep (Path u)"
  shows "\<not> doubled_sep (EscapedPath u)"
proof (cases "RawPath u \<noteq> [] \<and> validEncoded (RawPath u) encodePath
         \<and> unescape (RawPath u) = Some (Path u)")
  case True
  then have "EscapedPath u = RawPath u" by (simp add: EscapedPath_def)
  moreover have "\<not> doubled_sep (RawPath u)"
    using True assms unescape_doubled by blast
  ultimately show ?thesis by simp
next
  case False
  then have "EscapedPath u = (if Path u = ''*'' then ''*'' else escape (Path u) encodePath)"
    by (auto simp: EscapedPath_def)
  then show ?thesis
    using assms escape_no_doubled by simp
qed

lemma URL_String_rooted:
  assumes "Host u \<noteq> []" "RawPath u = []" "p \<noteq> []" "hd p \<noteq> sep" "p \<noteq> ''*''"
  shows "URL_String (u\<lparr>Path := sep # p\<rparr>) = URL_String (u\<lparr>Path := p\<rparr>)"
proof -
  have e1: "EscapedPath (u\<lparr>Path := sep # p\<rparr>) = sep # escape p encodePath"
    using assms by (simp add: EscapedPath_def escape_Cons escape_char_sep)
  have e2: "EscapedPath (u\<lparr>Path := p\<rparr>) = escape p encodePath"
    using assms by (simp add: EscapedPath_def)
  have h: "escape p encodePath \<noteq> []" "hd (escape p encodePath) \<noteq> sep"
    using escape_hd [OF assms(3)] assms(4) by simp_all
  have a: "authority (u\<lparr>Path := sep # p\<rparr>) = authority (u\<lparr>Path := p\<rparr>)"
    using assms by (simp add: authority_def)
  have n: "authority (u\<lparr>Path := p\<rparr>) \<noteq> []"
    using assms by (simp add: authority_def)
  show ?thesis
    using e1 e2 h a n assms(1) by (simp add: URL_String_def Let_def EscapedFragment_def)
qed

subsection \<open>The resolved URL\<close>

lemma target_URL_eq:
  "target_URL E (u\<lparr>Path := x\<rparr>) p q =
     (if length q > 0 then u\<lparr>RawQuery := Values_Encode E q\<rparr> else u)
       \<lparr>Path := filepath_Join [x, p]\<rparr>"
  by (simp add: target_URL_def Let_def)

lemma target_URL_Path: "Path (target_URL E u p q) = filepath_Join [Path u, p]"
  by (simp add: target_URL_def Let_def)

lemma build_request_target:
  "build_request E m p b q c = Inr (v, req) \<Longrightarrow>
   \<exists>u0. url_Parse E (BaseURL c) = Inr u0 \<and> v = target_URL E u0 p q"
  by (auto simp: build_request_def Let_def split: sum.splits option.splits)

lemma resolve_same_sep:
  assumes "B \<noteq> [] \<or> (Host u \<noteq> [] \<and> RawPath u = [] \<and> P \<noteq> [] \<and> hd P \<noteq> sep
             \<and> Clean P \<noteq> [dot] \<and> Clean P \<noteq> ''*'' \<and> Clean P \<noteq> [dot, dot]
             \<and> take 3 (Clean P) \<noteq> [dot, dot, sep])"
  shows "URL_String (target_URL E (u\<lparr>Path := B @ replicate k sep\<rparr>)
                       (replicate i sep @ P @ replicate j sep) q)
       = URL_String (target_URL E (u\<lparr>Path := B @ replicate k' sep\<rparr>)
                       (replicate i' sep @ P @ replicate j' sep) q)"
proof (cases "B = []")
  case False
  then have "filepath_Join [B @ replicate n sep, replicate m sep @ P @ replicate l sep]
               = Clean (B @ sep # P)" for n m l
    by (rule Join_base)
  then show ?thesis
    by (simp only: target_URL_eq)
next
  case True
  with assms have h: "Host u \<noteq> []" "RawPath u = []" "P \<noteq> []" "hd P \<noteq> sep"
    "Clean P \<noteq> [dot]" "Clean P \<noteq> ''*''" "Clean P \<noteq> [dot, dot]"
    "take 3 (Clean P) \<noteq> [dot, dot, sep]"
    by simp_all
  define v where "v = (if length q > 0 then u\<lparr>RawQuery := Values_Encode E q\<rparr> else u)"
  have hv: "Host v \<noteq> []" "RawPath v = []"
    using h by (simp_all add: v_def)
  from Clean_below [OF h(3,4,5,7,8)]
  have b: "Clean (sep # P) = sep # Clean P" "Clean P \<noteq> []" "hd (Clean P) \<noteq> sep"
    by simp_all
  have r: "URL_String (v\<lparr>Path := sep # Clean P\<rparr>) = URL_String (v\<lparr>Path := Clean P\<rparr>)"
    using hv b h(6) by (intro URL_String_rooted) simp_all
  have j: "filepath_Join [B @ replicate n sep, replicate m sep @ P @ replicate l sep]
             = (if n = 0 \<and> m = 0 then Clean P else sep # Clean P)" for n m l
    by (simp only: True append_Nil Join_no_base [OF h(3,4)] b(1))
  have e: "URL_String (target_URL E (u\<lparr>Path := B @ replicate n sep\<rparr>)
                       (replicate m sep @ P @ replicate l sep) q)
             = URL_String (v\<lparr>Path := Clean P\<rparr>)" for n m l
  proof -
    have "target_URL E (u\<lparr>Path := B @ replicate n sep\<rparr>)
            (replicate m sep @ P @ replicate l sep) q
            = v\<lparr>Path := (if n = 0 \<and> m = 0 then Clean P else sep # Clean P)\<rparr>"
      by (simp only: target_URL_eq j v_def)
    then show ?thesis
      using r by (cases "n = 0 \<and> m = 0") simp_all
  qed
  show ?thesis
    by (simp only: e)
qed

lemma EscapedPath_raw_unused:
  assumes "r = [] \<or> \<not> validEncoded r encodePath \<or> unescape r \<noteq> Some (Path u)"
  shows "EscapedPath (u\<lparr>RawPath := r\<rparr>) = EscapedPath (u\<lparr>RawPath := []\<rparr>)"
  using assms by (auto simp: EscapedPath_def)

lemma URL_String_raw_unused:
  assumes "r = [] \<or> \<not> validEncoded r encodePath \<or> unescape r \<noteq> Some (Path u)"
  shows "URL_String (u\<lparr>RawPath := r\<rparr>) = URL_String (u\<lparr>RawPath := []\<rparr>)"
  using EscapedPath_raw_unused [OF assms]
  by (simp add: URL_String_def Let_def authority_def EscapedFragment_def)

lemma target_URL_RawPath:
  "target_URL E (u\<lparr>RawPath := r\<rparr>) p q = (target_URL E u p q)\<lparr>RawPath := r\<rparr>"
  by (simp add: target_URL_def Let_def)

lemma resolve_raw_unused:
  assumes "RawPath u = [] \<or> \<not> validEncoded (RawPath u) encodePath
             \<or> unescape (RawPath u) \<noteq> Some (filepath_Join [Path u, p])"
  shows "URL_String (target_URL E u p q) = URL_String (target_URL E (u\<lparr>RawPath := []\<rparr>) p q)"
proof -
  have "target_URL E u p q = (target_URL E u p q)\<lparr>RawPath := RawPath u\<rparr>"
    by (simp add: target_URL_def Let_def)
  then have "URL_String (target_URL E u p q)
               = URL_String ((target_URL E u p q)\<lparr>RawPath := RawPath u\<rparr>)"
    by simp
  also have "\<dots> = URL_String ((target_URL E u p q)\<lparr>RawPath := []\<rparr>)"
    using assms by (intro URL_String_raw_unused) (simp add: target_URL_Path)
  finally show ?thesis
    by (simp only: target_URL_RawPath)
qed

lemma resolve_same_raw:
  assumes u2: "u2 = u1\<lparr>Path := x, RawPath := RawPath u2\<rparr>"
  shows "u2\<lparr>RawPath := []\<rparr> = (u1\<lparr>RawPath := []\<rparr>)\<lparr>Path := x\<rparr>"
  by (subst u2) simp

lemma example_Parse_raw:
  "example_Parse ''http://api.example.com/a%2Fb'' = Inr (example_raw_URL [])"
  "example_Parse ''http://api.example.com/a%2Fb/'' = Inr (example_raw_URL ''/'')"
  by code_simp+

lemma example_target_widgets:
  "URL_String (target_URL (example_env example_token_reply) (example_URL []) ''/widgets'' [])
     = ''http://api.example.com/widgets''"
  by code_simp

lemma example_target_raw:
  "URL_String (target_URL (example_env example_token_reply) (example_raw_URL []) ''widgets'' [])
     = ''http://api.example.com/a/b/widgets''"
  "URL_String (target_URL (example_env example_token_reply) (example_raw_URL []) [] [])
     = ''http://api.example.com/a%2Fb''"
  by code_simp+

text \<open>
  C9. Take two base URLs that differ only in the separators at the end of their paths,
  \<open>B\<close> followed by \<open>k\<close> or by \<open>k'\<close> separators, and so perhaps in the raw
  path that \<^verbatim>\<open>url.Parse\<close> keeps of a path not written in its default encoding; and
  two request paths that differ only in the separators before and after \<open>P\<close>. The
  URL that \<^verbatim>\<open>Request\<close> resolves is the same string for both in two cases. One:
  \<open>B\<close> is not empty and the base URLs have the same raw path. Two: neither base URL
  has a raw path that is a valid encoding of the joined path, and \<open>B\<close> is not empty,
  or the URL has a host and \<open>P\<close> is a relative path that cleans to a name below the
  base: not \<^verbatim>\<open>.\<close> (as the empty path and \<^verbatim>\<open>a/..\<close> do), not \<^verbatim>\<open>*\<close>, and not
  beginning with a \<^verbatim>\<open>..\<close> element. For every base URL and request path, the joined
  path, and the path as the URL string prints it, has no two separators in a row. The
  request that is built is built from the string of this resolved URL: its URL is what
  the string parses to, the host without an empty port.
\<close>

theorem target_URL_slashes:
  "(Path u1 = B @ replicate k CHR ''/''
      \<and> u2 = u1\<lparr>Path := B @ replicate k' CHR ''/'', RawPath := RawPath u2\<rparr>
      \<and> p1 = replicate i CHR ''/'' @ P @ replicate j CHR ''/''
      \<and> p2 = replicate i' CHR ''/'' @ P @ replicate j' CHR ''/''
      \<and> ((B \<noteq> [] \<and> RawPath u1 = RawPath u2)
         \<or> ((RawPath u1 = [] \<or> \<not> validEncoded (RawPath u1) encodePath
               \<or> unescape (RawPath u1) \<noteq> Some (filepath_Join [Path u1, p1]))
            \<and> (RawPath u2 = [] \<or> \<not> validEncoded (RawPath u2) encodePath
               \<or> unescape (RawPath u2) \<noteq> Some (filepath_Join [Path u2, p2]))
            \<and> (B \<noteq> [] \<or> (Host u1 \<noteq> [] \<and> P \<noteq> [] \<and> hd P \<noteq> CHR ''/''
               \<and> Clean P \<noteq> ''.'' \<and> Clean P \<noteq> ''*'' \<and> Clean P \<noteq> ''..''
               \<and> take 3 (Clean P) \<noteq> ''../'')))) \<longrightarrow>
     URL_String (target_URL E u1 p1 q) = URL_String (target_URL E u2 p2 q))
   \<and> \<not> doubled_sep (Path (target_URL E u p q))
   \<and> \<not> doubled_sep (EscapedPath (target_URL E u p q))
   \<and> (build_request E m p b q c = Inr (v, req) \<longrightarrow>
        (\<exists>u0. url_Parse E (BaseURL c) = Inr u0 \<and> v = target_URL E u0 p q)
        \<and> (\<exists>u'. url_Parse E (URL_String v) = Inr u'
              \<and> req_URL req = u'\<lparr>Host := removeEmptyPort (Host u')\<rparr>))"
proof (intro conjI impI)
  assume a: "Path u1 = B @ replicate k CHR ''/''
      \<and> u2 = u1\<lparr>Path := B @ replicate k' CHR ''/'', RawPath := RawPath u2\<rparr>
      \<and> p1 = replicate i CHR ''/'' @ P @ replicate j CHR ''/''
      \<and> p2 = replicate i' CHR ''/'' @ P @ replicate j' CHR ''/''
      \<and> ((B \<noteq> [] \<and> RawPath u1 = RawPath u2)
         \<or> ((RawPath u1 = [] \<or> \<not> validEncoded (RawPath u1) encodePath
               \<or> unescape (RawPath u1) \<noteq> Some (filepath_Join [Path u1, p1]))
            \<and> (RawPath u2 = [] \<or> \<not> validEncoded (RawPath u2) encodePath
               \<or> unescape (RawPath u2) \<noteq> Some (filepath_Join [Path u2, p2]))
            \<and> (B \<noteq> [] \<or> (Host u1 \<noteq> [] \<and> P \<noteq> [] \<and> hd P \<noteq> CHR ''/''
               \<and> Clean P \<noteq> ''.'' \<and> Clean P \<noteq> ''*'' \<and> Clean P \<noteq> ''..''
               \<and> take 3 (Clean P) \<noteq> ''../''))))"
  from a have P1: "Path u1 = B @ replicate k sep"
    and U2: "u2 = u1\<lparr>Path := B @ replicate k' sep, RawPath := RawPath u2\<rparr>"
    and p1: "p1 = replicate i sep @ P @ replicate j sep"
    and p2: "p2 = replicate i' sep @ P @ replicate j' sep"
    by (simp_all add: sep_def)
  from a consider (same) "B \<noteq> []" "RawPath u1 = RawPath u2"
    | (unused) "RawPath u1 = [] \<or> \<not> validEncoded (RawPath u1) encodePath
           \<or> unescape (RawPath u1) \<noteq> Some (filepath_Join [Path u1, p1])"
        "RawPath u2 = [] \<or> \<not> validEncoded (RawPath u2) encodePath
           \<or> unescape (RawPath u2) \<noteq> Some (filepath_Join [Path u2, p2])"
        "B \<noteq> [] \<or> (Host u1 \<noteq> [] \<and> P \<noteq> [] \<and> hd P \<noteq> CHR ''/''
           \<and> Clean P \<noteq> ''.'' \<and> Clean P \<noteq> ''*'' \<and> Clean P \<noteq> ''..''
           \<and> take 3 (Clean P) \<noteq> ''../'')"
    by blast
  then show "URL_String (target_URL E u1 p1 q) = URL_String (target_URL E u2 p2 q)"
  proof cases
    case same
    have e1: "u1 = u1\<lparr>Path := B @ replicate k sep\<rparr>"
      using P1 by simp
    have e2: "u2 = u1\<lparr>Path := B @ replicate k' sep\<rparr>"
      by (subst U2) (simp add: same(2) [symmetric])
    have "URL_String (target_URL E (u1\<lparr>Path := B @ replicate k sep\<rparr>)
                       (replicate i sep @ P @ replicate j sep) q)
        = URL_String (target_URL E (u1\<lparr>Path := B @ replicate k' sep\<rparr>)
                       (replicate i' sep @ P @ replicate j' sep) q)"
      using same(1) by (intro resolve_same_sep) simp
    then show ?thesis
      using e1 e2 p1 p2 by simp
  next
    case unused
    define w1 where "w1 = u1\<lparr>RawPath := []\<rparr>"
    from unused(3) have c: "B \<noteq> [] \<or> (Host w1 \<noteq> [] \<and> RawPath w1 = [] \<and> P \<noteq> [] \<and> hd P \<noteq> sep
             \<and> Clean P \<noteq> [dot] \<and> Clean P \<noteq> ''*'' \<and> Clean P \<noteq> [dot, dot]
             \<and> take 3 (Clean P) \<noteq> [dot, dot, sep])"
      by (simp add: sep_def dot_def w1_def)
    have e1: "u1\<lparr>RawPath := []\<rparr> = w1\<lparr>Path := B @ replicate k sep\<rparr>"
      using P1 by (simp add: w1_def)
    have e2: "u2\<lparr>RawPath := []\<rparr> = w1\<lparr>Path := B @ replicate k' sep\<rparr>"
      unfolding w1_def using U2 by (rule resolve_same_raw)
    have "URL_String (target_URL E u1 p1 q)
            = URL_String (target_URL E (u1\<lparr>RawPath := []\<rparr>) p1 q)"
      using unused(1) by (rule resolve_raw_unused)
    also have "\<dots> = URL_String (target_URL E (w1\<lparr>Path := B @ replicate k sep\<rparr>)
                       (replicate i sep @ P @ replicate j sep) q)"
      by (simp only: e1 p1)
    also have "\<dots> = URL_String (target_URL E (w1\<lparr>Path := B @ replicate k' sep\<rparr>)
                       (replicate i' sep @ P @ replicate j' sep) q)"
      using c by (rule resolve_same_sep)
    also have "\<dots> = URL_String (target_URL E (u2\<lparr>RawPath := []\<rparr>) p2 q)"
      by (simp only: e2 p2)
    also have "\<dots> = URL_String (target_URL E u2 p2 q)"
      using unused(2) by (rule resolve_raw_unused [symmetric])
    finally show ?thesis .
  qed
next
  show n: "\<not> doubled_sep (Path (target_URL E u p q))"
    unfolding target_URL_Path by (rule Join_no_doubled)
  then show "\<not> doubled_sep (EscapedPath (target_URL E u p q))"
    by (rule EscapedPath_no_doubled)
next
  assume "build_request E m p b q c = Inr (v, req)"
  then show "\<exists>u0. url_Parse E (BaseURL c) = Inr u0 \<and> v = target_URL E u0 p q"
    and "\<exists>u'. url_Parse E (URL_String v) = Inr u'
              \<and> req_URL req = u'\<lparr>Host := removeEmptyPort (Host u')\<rparr>"
    by (rule build_request_target, rule build_request_URL)
qed

theorem target_URL_slashes_witness:
  "URL_String (target_URL (example_env example_token_reply) (example_URL ''/'') ''widgets/'' [])
     = ''http://api.example.com/widgets''
   \<and> URL_String (target_URL (example_env example_token_reply) (example_URL []) ''widgets'' [])
     = ''http://api.example.com/widgets''
   \<and> URL_String (target_URL (example_env example_token_reply) (example_raw_URL ''/'')
        ''/widgets/'' []) = ''http://api.example.com/a/b/widgets''
   \<and> URL_String (target_URL (example_env example_token_reply) (example_raw_URL []) ''/'' [])
     = ''http://api.example.com/a%2Fb''"
proof -
  let ?E = "example_env example_token_reply"
  have h1: "Path (example_URL []) = ([] :: string) @ replicate 0 CHR ''/''
      \<and> example_URL ''/'' = (example_URL [])\<lparr>Path := ([] :: string) @ replicate 1 CHR ''/'', RawPath := RawPath (example_URL ''/'')\<rparr>
      \<and> ''/widgets'' = replicate 1 CHR ''/'' @ ''widgets'' @ replicate 0 CHR ''/''
      \<and> ''widgets/'' = replicate 0 CHR ''/'' @ ''widgets'' @ replicate 1 CHR ''/''
      \<and> ((([] :: string) \<noteq> [] \<and> RawPath (example_URL []) = RawPath (example_URL ''/''))
         \<or> ((RawPath (example_URL []) = [] \<or> \<not> validEncoded (RawPath (example_URL [])) encodePath
               \<or> unescape (RawPath (example_URL [])) \<noteq> Some (filepath_Join [Path (example_URL []), ''/widgets'']))
            \<and> (RawPath (example_URL ''/'') = [] \<or> \<not> validEncoded (RawPath (example_URL ''/'')) encodePath
               \<or> unescape (RawPath (example_URL ''/'')) \<noteq> Some (filepath_Join [Path (example_URL ''/''), ''widgets/'']))
            \<and> (([] :: string) \<noteq> [] \<or> (Host (example_URL []) \<noteq> [] \<and> ''widgets'' \<noteq> [] \<and> hd ''widgets'' \<noteq> CHR ''/''
               \<and> Clean ''widgets'' \<noteq> ''.'' \<and> Clean ''widgets'' \<noteq> ''*'' \<and> Clean ''widgets'' \<noteq> ''..''
               \<and> take 3 (Clean ''widgets'') \<noteq> ''../''))))"
    by code_simp
  have h2: "Path (example_URL []) = ([] :: string) @ replicate 0 CHR ''/''
      \<and> example_URL [] = (example_URL [])\<lparr>Path := ([] :: string) @ replicate 0 CHR ''/'', RawPath := RawPath (example_URL [])\<rparr>
      \<and> ''/widgets'' = replicate 1 CHR ''/'' @ ''widgets'' @ replicate 0 CHR ''/''
      \<and> ''widgets'' = replicate 0 CHR ''/'' @ ''widgets'' @ replicate 0 CHR ''/''
      \<and> ((([] :: string) \<noteq> [] \<and> RawPath (example_URL []) = RawPath (example_URL []))
         \<or> ((RawPath (example_URL []) = [] \<or> \<not> validEncoded (RawPath (example_URL [])) encodePath
               \<or> unescape (RawPath (example_URL [])) \<noteq> Some (filepath_Join [Path (example_URL []), ''/widgets'']))
            \<and> (RawPath (example_URL []) = [] \<or> \<not> validEncoded (RawPath (example_URL [])) encodePath
               \<or> unescape (RawPath (example_URL [])) \<noteq> Some (filepath_Join [Path (example_URL []), ''widgets'']))
            \<and> (([] :: string) \<noteq> [] \<or> (Host (example_URL []) \<noteq> [] \<and> ''widgets'' \<noteq> [] \<and> hd ''widgets'' \<noteq> CHR ''/''
               \<and> Clean ''widgets'' \<noteq> ''.'' \<and> Clean ''widgets'' \<noteq> ''*'' \<and> Clean ''widgets'' \<noteq> ''..''
               \<and> take 3 (Clean ''widgets'') \<noteq> ''../''))))"
    by code_simp
  have h3: "Path (example_raw_URL []) = ''/a/b'' @ replicate 0 CHR ''/''
      \<and> example_raw_URL ''/'' = (example_raw_URL [])\<lparr>Path := ''/a/b'' @ replicate 1 CHR ''/'', RawPath := RawPath (example_raw_URL ''/'')\<rparr>
      \<and> ''widgets'' = replicate 0 CHR ''/'' @ ''widgets'' @ replicate 0 CHR ''/''
      \<and> ''/widgets/'' = replicate 1 CHR ''/'' @ ''widgets'' @ replicate 1 CHR ''/''
      \<and> ((''/a/b'' \<noteq> [] \<and> RawPath (example_raw_URL []) = RawPath (example_raw_URL ''/''))
         \<or> ((RawPath (example_raw_URL []) = [] \<or> \<not> validEncoded (RawPath (example_raw_URL [])) encodePath
               \<or> unescape (RawPath (example_raw_URL [])) \<noteq> Some (filepath_Join [Path (example_raw_URL []), ''widgets'']))
            \<and> (RawPath (example_raw_URL ''/'') = [] \<or> \<not> validEncoded (RawPath (example_raw_URL ''/'')) encodePath
               \<or> unescape (RawPath (example_raw_URL ''/'')) \<noteq> Some (filepath_Join [Path (example_raw_URL ''/''), ''/widgets/'']))
            \<and> (''/a/b'' \<noteq> [] \<or> (Host (example_raw_URL []) \<noteq> [] \<and> ''widgets'' \<noteq> [] \<and> hd ''widgets'' \<noteq> CHR ''/''
               \<and> Clean ''widgets'' \<noteq> ''.'' \<and> Clean ''widgets'' \<noteq> ''*'' \<and> Clean ''widgets'' \<noteq> ''..''
               \<and> take 3 (Clean ''widgets'') \<noteq> ''../''))))"
    by code_simp
  have h4: "Path (example_raw_URL []) = ''/a/b'' @ replicate 0 CHR ''/''
      \<and> example_raw_URL [] = (example_raw_URL [])\<lparr>Path := ''/a/b'' @ replicate 0 CHR ''/'', RawPath := RawPath (example_raw_URL [])\<rparr>
      \<and> ([] :: string) = replicate 0 CHR ''/'' @ ([] :: string) @ replicate 0 CHR ''/''
      \<and> ''/'' = replicate 0 CHR ''/'' @ ([] :: string) @ replicate 1 CHR ''/''
      \<and> ((''/a/b'' \<noteq> [] \<and> RawPath (example_raw_URL []) = RawPath (example_raw_URL []))
         \<or> ((RawPath (example_raw_URL []) = [] \<or> \<not> validEncoded (RawPath (example_raw_URL [])) encodePath
               \<or> unescape (RawPath (example_raw_URL [])) \<noteq> Some (filepath_Join [Path (example_raw_URL []), ([] :: string)]))
            \<and> (RawPath (example_raw_URL []) = [] \<or> \<not> validEncoded (RawPath (example_raw_URL [])) encodePath
               \<or> unescape (RawPath (example_raw_URL [])) \<noteq> Some (filepath_Join [Path (example_raw_URL []), ''/'']))
            \<and> (''/a/b'' \<noteq> [] \<or> (Host (example_raw_URL []) \<noteq> [] \<and> ([] :: string) \<noteq> [] \<and> hd ([] :: string) \<noteq> CHR ''/''
               \<and> Clean ([] :: string) \<noteq> ''.'' \<and> Clean ([] :: string) \<noteq> ''*'' \<and> Clean ([] :: string) \<noteq> ''..''
               \<and> take 3 (Clean ([] :: string)) \<noteq> ''../''))))"
    by code_simp
  note t1 = target_URL_slashes
      [where ?u1.0 = "example_URL []" and ?u2.0 = "example_URL ''/''" and B = "([] :: string)" and k = 0 and k' = 1
         and ?p1.0 = "''/widgets''" and ?p2.0 = "''widgets/''" and P = "''widgets''"
         and i = 1 and j = 0 and i' = 0 and j' = 1 and E = ?E and q = "[]",
       THEN conjunct1, rule_format, OF h1]
  note t2 = target_URL_slashes
      [where ?u1.0 = "example_URL []" and ?u2.0 = "example_URL []" and B = "([] :: string)" and k = 0 and k' = 0
         and ?p1.0 = "''/widgets''" and ?p2.0 = "''widgets''" and P = "''widgets''"
         and i = 1 and j = 0 and i' = 0 and j' = 0 and E = ?E and q = "[]",
       THEN conjunct1, rule_format, OF h2]
  note t3 = target_URL_slashes
      [where ?u1.0 = "example_raw_URL []" and ?u2.0 = "example_raw_URL ''/''" and B = "''/a/b''" and k = 0 and k' = 1
         and ?p1.0 = "''widgets''" and ?p2.0 = "''/widgets/''" and P = "''widgets''"
         and i = 0 and j = 0 and i' = 1 and j' = 1 and E = ?E and q = "[]",
       THEN conjunct1, rule_format, OF h3]
  note t4 = target_URL_slashes
      [where ?u1.0 = "example_raw_URL []" and ?u2.0 = "example_raw_URL []" and B = "''/a/b''" and k = 0 and k' = 0
         and ?p1.0 = "([] :: string)" and ?p2.0 = "''/''" and P = "([] :: string)"
         and i = 0 and j = 0 and i' = 0 and j' = 1 and E = ?E and q = "[]",
       THEN conjunct1, rule_format, OF h4]
  from t1 t2 t3 t4 show ?thesis
    by (simp only: example_target_widgets example_target_raw simp_thms)
qed

text \<open>
  Without the conditions the claim fails. The empty path and the path \<^verbatim>\<open>/\<close> differ
  only in a leading separator, and so do the base URLs with and without a trailing
  separator, yet the resolved URLs differ; the same happens for the paths \<^verbatim>\<open>..\<close> and
  \<^verbatim>\<open>*\<close>. And of the base URLs \<^verbatim>\<open>http://api.example.com/a%2Fb\<close> with and without
  a trailing separator, whose paths are not empty, the first keeps its escaped separator
  in the resolved URL of the empty request path and the second does not.
\<close>

theorem target_URL_slashes_counterexample:
  "map_option RequestURL (fst (fst (Request (example_env example_token_reply) ''GET'' [] None []
       example_valid_client example_world))) = Some ''http://api.example.com''
   \<and> map_option RequestURL (fst (fst (Request (example_env example_token_reply) ''GET'' ''/'' None []
       example_valid_client example_world))) = Some ''http://api.example.com/''
   \<and> map_option RequestURL (fst (fst (Request (example_env example_token_reply) ''GET'' [] None []
       (example_valid_client\<lparr>BaseURL := ''http://api.example.com/''\<rparr>) example_world)))
       = Some ''http://api.example.com/''
   \<and> map_option RequestURL (fst (fst (Request (example_env example_token_reply) ''GET'' ''..'' None []
       example_valid_client example_world))) = Some ''http://api.example.com/..''
   \<and> map_option RequestURL (fst (fst (Request (example_env example_token_reply) ''GET'' ''..'' None []
       (example_valid_client\<lparr>BaseURL := ''http://api.example.com/''\<rparr>) example_world)))
       = Some ''http://api.example.com/''
   \<and> map_option RequestURL (fst (fst (Request (example_env example_token_reply) ''GET'' ''*'' None []
       example_valid_client example_world))) = Some ''http://api.example.com/*''
   \<and> map_option RequestURL (fst (fst (Request (example_env example_token_reply) ''GET'' ''*'' None []
       (example_valid_client\<lparr>BaseURL := ''http://api.example.com/''\<rparr>) example_world)))
       = Some ''http://api.example.com/%2A''
   \<and> map_option RequestURL (fst (fst (Request (example_env example_token_reply) ''GET'' [] None []
       (example_valid_client\<lparr>BaseURL := ''http://api.example.com/a%2Fb''\<rparr>) example_world)))
       = Some ''http://api.example.com/a%2Fb''
   \<and> map_option RequestURL (fst (fst (Request (example_env example_token_reply) ''GET'' [] None []
       (example_valid_client\<lparr>BaseURL := ''http://api.example.com/a%2Fb/''\<rparr>) example_world)))
       = Some ''http://api.example.com/a/b''"
  by code_simp

end
